theory Spec2Isabelle
  imports Complex_Main
begin

section \<open>Tensors\<close>

text \<open>
  The program computes with torch tensors.  A tensor is modelled by its shape and its
  elements in row-major (contiguous) order, over the real numbers: the arithmetic is exact.
  A tensor is well formed when it has as many elements as its shape says.  Every Python
  exception is a value of type \<open>error\<close>; an operation that can raise returns
  \<open>error + 'a\<close>.
\<close>

datatype error =
  AssertionError | ValueError | IndexError | RuntimeError | TypeError | ZeroDivisionError

datatype tensor = Tensor (shape: "nat list") (data: "real list")

definition numel :: "tensor \<Rightarrow> nat" where
  "numel t = prod_list (shape t)"

definition well_formed :: "tensor \<Rightarrow> bool" where
  "well_formed t \<longleftrightarrow> length (data t) = prod_list (shape t)"

definition ebind :: "error + 'a \<Rightarrow> ('a \<Rightarrow> error + 'b) \<Rightarrow> error + 'b" where
  "ebind m f = (case m of Inl e \<Rightarrow> Inl e | Inr v \<Rightarrow> f v)"

text \<open>Row-major position of a multi-index, and the multi-index of a position.\<close>

fun ravel :: "nat list \<Rightarrow> nat list \<Rightarrow> nat" where
  "ravel (d # ds) (i # is) = i * prod_list ds + ravel ds is"
| "ravel _ _ = 0"

fun unravel :: "nat list \<Rightarrow> nat \<Rightarrow> nat list" where
  "unravel [] k = []"
| "unravel (d # ds) k = (k div prod_list ds) # unravel ds (k mod prod_list ds)"

fun valid_idx :: "nat list \<Rightarrow> nat list \<Rightarrow> bool" where
  "valid_idx [] [] = True"
| "valid_idx (d # ds) (i # is) = (i < d \<and> valid_idx ds is)"
| "valid_idx _ _ = False"

definition elem :: "tensor \<Rightarrow> nat list \<Rightarrow> real" where
  "elem t idx = data t ! ravel (shape t) idx"

text \<open>The tensor of a given shape whose element at each multi-index is given by a function.\<close>

definition tabulate :: "nat list \<Rightarrow> (nat list \<Rightarrow> real) \<Rightarrow> tensor" where
  "tabulate shp f = Tensor shp (map (\<lambda>k. f (unravel shp k)) [0..<prod_list shp])"

definition zeros :: "nat list \<Rightarrow> tensor" where
  "zeros shp = Tensor shp (replicate (prod_list shp) 0)"

definition ones :: "nat list \<Rightarrow> tensor" where
  "ones shp = Tensor shp (replicate (prod_list shp) 1)"

text \<open>\<^verbatim>\<open>t.reshape(shp)\<close> and \<^verbatim>\<open>t.view(shp)\<close> on a contiguous tensor: the elements stay in
  place; the call raises when the new shape has another number of elements.\<close>

definition reshape :: "tensor \<Rightarrow> nat list \<Rightarrow> error + tensor" where
  "reshape t shp = (if prod_list shp = numel t then Inr (Tensor shp (data t)) else Inl RuntimeError)"

text \<open>\<^verbatim>\<open>t.reshape(-1)\<close>: one axis holding every element.\<close>

definition flatten :: "tensor \<Rightarrow> tensor" where
  "flatten t = Tensor [numel t] (data t)"

text \<open>\<^verbatim>\<open>t.unsqueeze(d)\<close>: a new axis of size 1 at position \<open>d\<close>.\<close>

definition unsqueeze :: "tensor \<Rightarrow> nat \<Rightarrow> tensor" where
  "unsqueeze t d = Tensor (take d (shape t) @ [1] @ drop d (shape t)) (data t)"

text \<open>\<^verbatim>\<open>t.permute(perm)\<close>: axis \<open>k\<close> of the result is axis \<open>perm ! k\<close> of \<open>t\<close>.\<close>

definition index_of :: "nat list \<Rightarrow> nat \<Rightarrow> nat" where
  "index_of perm a = length (takeWhile (\<lambda>p. p \<noteq> a) perm)"

definition permute :: "tensor \<Rightarrow> nat list \<Rightarrow> tensor" where
  "permute t perm =
     tabulate (map (\<lambda>p. shape t ! p) perm)
       (\<lambda>idx. elem t (map (\<lambda>a. idx ! index_of perm a) [0..<length perm]))"

text \<open>Elementwise functions and elementwise binary operations with broadcasting: the shapes
  are aligned at their last axes, an axis of size 1 is repeated.\<close>

definition tmap :: "(real \<Rightarrow> real) \<Rightarrow> tensor \<Rightarrow> tensor" where
  "tmap f t = Tensor (shape t) (map f (data t))"

definition pad_shape :: "nat \<Rightarrow> nat list \<Rightarrow> nat list" where
  "pad_shape r shp = replicate (r - length shp) 1 @ shp"

definition bshape :: "nat list \<Rightarrow> nat list \<Rightarrow> nat list" where
  "bshape s1 s2 =
     (let r = max (length s1) (length s2)
      in map (\<lambda>(d1, d2). if d1 = 1 then d2 else d1) (zip (pad_shape r s1) (pad_shape r s2)))"

definition broadcastable :: "nat list \<Rightarrow> nat list \<Rightarrow> bool" where
  "broadcastable s1 s2 =
     (let r = max (length s1) (length s2)
      in list_all (\<lambda>(d1, d2). d1 = d2 \<or> d1 = 1 \<or> d2 = 1) (zip (pad_shape r s1) (pad_shape r s2)))"

definition bidx :: "nat list \<Rightarrow> nat list \<Rightarrow> nat list" where
  "bidx shp idx =
     map (\<lambda>(d, i). if d = 1 then 0 else i) (zip shp (drop (length idx - length shp) idx))"

definition tbin :: "(real \<Rightarrow> real \<Rightarrow> real) \<Rightarrow> tensor \<Rightarrow> tensor \<Rightarrow> tensor" where
  "tbin f A B =
     tabulate (bshape (shape A) (shape B))
       (\<lambda>idx. f (elem A (bidx (shape A) idx)) (elem B (bidx (shape B) idx)))"

definition tadd :: "tensor \<Rightarrow> tensor \<Rightarrow> tensor" where
  "tadd = tbin (+)"

definition tsub :: "tensor \<Rightarrow> tensor \<Rightarrow> tensor" where
  "tsub = tbin (-)"

definition tmul :: "tensor \<Rightarrow> tensor \<Rightarrow> tensor" where
  "tmul = tbin (*)"

text \<open>\<^verbatim>\<open>c - t\<close> for a Python number \<open>c\<close>, and \<^verbatim>\<open>-t\<close>.\<close>

definition rsub :: "real \<Rightarrow> tensor \<Rightarrow> tensor" where
  "rsub c t = tmap (\<lambda>v. c - v) t"

definition tneg :: "tensor \<Rightarrow> tensor" where
  "tneg t = tmap uminus t"

text \<open>\<^verbatim>\<open>torch.cat(ts, dim=d)\<close>: for every position of the axes before \<open>d\<close>, the blocks of
  the tensors follow one another.\<close>

definition cat :: "tensor list \<Rightarrow> nat \<Rightarrow> tensor" where
  "cat ts d =
     Tensor ((shape (hd ts))[d := sum_list (map (\<lambda>t. shape t ! d) ts)])
       (concat (map (\<lambda>outer.
          concat (map (\<lambda>t. take (prod_list (drop d (shape t)))
                             (drop (outer * prod_list (drop d (shape t))) (data t))) ts))
          [0..<prod_list (take d (shape (hd ts)))]))"

section \<open>The rotation operator\<close>

text \<open>
  \<^verbatim>\<open>_get_rotation_matrix\<close> builds, for tensors \<open>x = cos thetas\<close> and \<open>y = sin thetas\<close>
  of shape \<open>[1, 1, N]\<close>, two templates of shape \<open>[9, 9, N]\<close>.  Each is written in the
  source as nine rows joined along axis 0, a row being its entries joined along axis 1.
  All operands have shape \<open>[1, m, N]\<close>, so none of these operations can raise.
\<close>

definition rot_mat_positive :: "tensor \<Rightarrow> tensor \<Rightarrow> nat \<Rightarrow> tensor" where
  "rot_mat_positive x y N =
     (let a = tsub x y; b = tmul x y; c = tadd x y
      in cat [
        cat [a, rsub 1 a, zeros [1, 7, N]] 1,
        cat [zeros [1, 1, N], tsub x b, b, zeros [1, 1, N], tadd (rsub 1 c) b, tsub y b,
             zeros [1, 3, N]] 1,
        cat [zeros [1, 2, N], a, zeros [1, 2, N], rsub 1 a, zeros [1, 3, N]] 1,
        cat [b, tsub y b, zeros [1, 1, N], tsub x b, tadd (rsub 1 c) b, zeros [1, 4, N]] 1,
        cat [zeros [1, 4, N], ones [1, 1, N], zeros [1, 4, N]] 1,
        cat [zeros [1, 4, N], tadd (rsub 1 c) b, tsub x b, zeros [1, 1, N], tsub y b, b] 1,
        cat [zeros [1, 3, N], rsub 1 a, zeros [1, 2, N], a, zeros [1, 2, N]] 1,
        cat [zeros [1, 3, N], tsub y b, tadd (rsub 1 c) b, zeros [1, 1, N], b, tsub x b,
             zeros [1, 1, N]] 1,
        cat [zeros [1, 7, N], rsub 1 a, a] 1] 0)"

definition rot_mat_negative :: "tensor \<Rightarrow> tensor \<Rightarrow> nat \<Rightarrow> tensor" where
  "rot_mat_negative x y N =
     (let a = tsub x y; b = tmul x y; c = tadd x y
      in cat [
        cat [c, zeros [1, 2, N], rsub 1 c, zeros [1, 5, N]] 1,
        cat [tneg b, tadd x b, zeros [1, 1, N], tsub b y, tsub (rsub 1 a) b,
             zeros [1, 4, N]] 1,
        cat [zeros [1, 1, N], rsub 1 c, c, zeros [1, 6, N]] 1,
        cat [zeros [1, 3, N], tadd x b, tsub (rsub 1 a) b, zeros [1, 1, N], tneg b, tsub b y,
             zeros [1, 1, N]] 1,
        cat [zeros [1, 4, N], ones [1, 1, N], zeros [1, 4, N]] 1,
        cat [zeros [1, 1, N], tsub b y, tneg b, zeros [1, 1, N], tsub (rsub 1 a) b, tadd x b,
             zeros [1, 3, N]] 1,
        cat [zeros [1, 6, N], c, rsub 1 c, zeros [1, 1, N]] 1,
        cat [zeros [1, 4, N], tsub (rsub 1 a) b, tsub b y, zeros [1, 1, N], tadd x b,
             tneg b] 1,
        cat [zeros [1, 5, N], rsub 1 c, zeros [1, 2, N], c] 1] 0)"

text \<open>The blend of the two templates by the sign mask, before the axes are reordered.\<close>

definition rot_mat_blend :: "tensor \<Rightarrow> tensor" where
  "rot_mat_blend thetas1 =
     (let N = numel thetas1;
          x = unsqueeze (unsqueeze (tmap cos thetas1) 0) 0;
          y = unsqueeze (unsqueeze (tmap sin thetas1) 0) 0;
          mask = unsqueeze (unsqueeze (tmap (\<lambda>v. if v \<ge> 0 then 1 else 0) thetas1) 0) 0
      in tadd (tmul mask (rot_mat_positive x y N))
              (tmul (rsub 1 mask) (rot_mat_negative x y N)))"

definition get_rotation_matrix :: "tensor \<Rightarrow> error + tensor" where
  "get_rotation_matrix thetas =
     (case shape thetas of
        [bs, g] \<Rightarrow>
          (let rot_mat = permute (rot_mat_blend (flatten thetas)) [2, 0, 1]
           in reshape rot_mat [bs, g, shape rot_mat ! 1, shape rot_mat ! 2])
      | _ \<Rightarrow> Inl ValueError)"

section \<open>The weight synthesizer\<close>

text \<open>Python slicing \<^verbatim>\<open>t[lo:hi]\<close> along axis \<open>d\<close> (bounds beyond the axis are clipped).\<close>

definition tslice :: "tensor \<Rightarrow> nat \<Rightarrow> nat \<Rightarrow> nat \<Rightarrow> tensor" where
  "tslice t d lo hi =
     (let D = shape t ! d
      in tabulate ((shape t)[d := min hi D - min lo D])
           (\<lambda>idx. elem t (idx[d := idx ! d + min lo D])))"

text \<open>\<^verbatim>\<open>torch.mm\<close>: the product of two matrices; it raises unless both are 2-D with matching
  inner sizes.\<close>

definition mm :: "tensor \<Rightarrow> tensor \<Rightarrow> error + tensor" where
  "mm A B =
     (case (shape A, shape B) of
        ([r, k], [k', c]) \<Rightarrow>
          if k = k'
          then Inr (tabulate [r, c]
                 (\<lambda>idx. sum_list (map (\<lambda>j. elem A [idx ! 0, j] * elem B [j, idx ! 1]) [0..<k])))
          else Inl RuntimeError
      | _ \<Rightarrow> Inl RuntimeError)"

text \<open>\<^verbatim>\<open>torch.stack(ts, dim=d)\<close>: the tensors, all of one shape, along a new axis \<open>d\<close>; it
  raises on an empty list and on differing shapes.\<close>

definition stack :: "tensor list \<Rightarrow> nat \<Rightarrow> error + tensor" where
  "stack ts d =
     (if ts = [] \<or> \<not> list_all (\<lambda>t. shape t = shape (hd ts)) ts then Inl RuntimeError
      else Inr (tabulate (take d (shape (hd ts)) @ [length ts] @ drop d (shape (hd ts)))
                  (\<lambda>idx. elem (ts ! (idx ! d)) (take d idx @ drop (Suc d) idx))))"

text \<open>The loop \<^verbatim>\<open>for i in range(n)\<close> of \<^verbatim>\<open>batch_rotate_multiweight\<close>, over the list of the
  values of \<open>i\<close>: the per-variant products, in order.\<close>

fun rotate_loop :: "tensor \<Rightarrow> tensor \<Rightarrow> nat list \<Rightarrow> error + tensor list" where
  "rotate_loop rotation_matrix weights [] = Inr []"
| "rotate_loop rotation_matrix weights (i # is) =
     ebind (mm (tslice rotation_matrix 1 (i * 9) ((i + 1) * 9))
               (tslice weights 0 (i * 9) ((i + 1) * 9)))
       (\<lambda>temp_weight. ebind (rotate_loop rotation_matrix weights is)
          (\<lambda>temp_weight_list. Inr (temp_weight # temp_weight_list)))"

text \<open>
  \<^verbatim>\<open>batch_rotate_multiweight\<close>.  Stages 1 to 3 of the source: the gated rotation matrices,
  reshaped to \<open>[b * 9, n * 9]\<close>; the kernel bank, reshaped to \<open>[n * 9, Cout * Cin]\<close>; the
  per-variant products, stacked along a new axis 1.
\<close>

definition rotate_stages ::
  "tensor \<Rightarrow> tensor \<Rightarrow> tensor \<Rightarrow> nat \<Rightarrow> nat \<Rightarrow> nat \<Rightarrow> nat \<Rightarrow> error + tensor" where
  "rotate_stages weights lambdas thetas b n Cout Cin =
     ebind (get_rotation_matrix thetas) (\<lambda>rotation_matrix.
     let lambdas = unsqueeze (unsqueeze lambdas 2) 3;
         rotation_matrix = tmul rotation_matrix lambdas;
         rotation_matrix = permute rotation_matrix [0, 2, 1, 3]
     in ebind (reshape rotation_matrix [b * 9, n * 9]) (\<lambda>rotation_matrix.
     let weights = permute weights [0, 3, 4, 1, 2]
     in ebind (reshape weights [n * 9, Cout * Cin]) (\<lambda>weights.
     ebind (rotate_loop rotation_matrix weights [0..<n]) (\<lambda>temp_weight_list.
     stack temp_weight_list 1))))"

text \<open>The whole function: the two assertions, the sizes read from the shapes, stages 1 to 3,
  and stage 4, whose \<^verbatim>\<open>view\<close> has the literal 4 of the source at the place of the
  kernel-variant axis.\<close>

definition batch_rotate_multiweight :: "tensor \<Rightarrow> tensor \<Rightarrow> tensor \<Rightarrow> error + tensor" where
  "batch_rotate_multiweight weights lambdas thetas =
     (if shape thetas \<noteq> shape lambdas then Inl AssertionError
      else if length (shape lambdas) < 2 \<or> shape weights = [] then Inl IndexError
      else if shape lambdas ! 1 \<noteq> shape weights ! 0 then Inl AssertionError
      else
        (let b = shape thetas ! 0; n = shape thetas ! 1
         in case shape weights of
              [_, Cout, Cin, _, _] \<Rightarrow>
                ebind (rotate_stages weights lambdas thetas b n Cout Cin) (\<lambda>weights.
                ebind (reshape weights [b, 3, 3, 4, Cout, Cin]) (\<lambda>weights.
                let weights = permute weights [0, 3, 4, 5, 1, 2]
                in reshape weights [b * n * Cout, Cin, 3, 3]))
            | _ \<Rightarrow> Inl ValueError))"

section \<open>Library layers\<close>

text \<open>
  The layers of the tensor library that the convolution module calls, with the semantics of their
  documentation.  \<^verbatim>\<open>F.conv2d\<close> on a batched input \<open>[N, C, H, W]\<close> and a weight
  \<open>[Co, C / groups, kh, kw]\<close>: output channel \<open>o\<close> reads the input channels of its group;
  positions in the zero padding contribute 0.
\<close>

definition padded :: "tensor \<Rightarrow> nat \<Rightarrow> nat list \<Rightarrow> real" where
  "padded inp p idx =
     (case (shape inp, idx) of
        ([N, C, H, W], [n, ch, a, b]) \<Rightarrow>
          if p \<le> a \<and> a < H + p \<and> p \<le> b \<and> b < W + p then elem inp [n, ch, a - p, b - p] else 0
      | _ \<Rightarrow> 0)"

definition conv2d ::
  "tensor \<Rightarrow> tensor \<Rightarrow> tensor option \<Rightarrow> int \<Rightarrow> int \<Rightarrow> int \<Rightarrow> int \<Rightarrow> error + tensor" where
  "conv2d inp w b stride padding dilation groups =
     (case (shape inp, shape w) of
        ([N, C, H, W], [Co, Cg, kh, kw]) \<Rightarrow>
          if stride \<le> 0 \<or> padding < 0 \<or> dilation \<le> 0 \<or> groups \<le> 0 then Inl RuntimeError
          else
            (let s = nat stride; p = nat padding; d = nat dilation; g = nat groups
             in if C \<noteq> Cg * g \<or> Co mod g \<noteq> 0 \<or> kh = 0 \<or> kw = 0 then Inl RuntimeError
                else if (case b of None \<Rightarrow> False | Some bt \<Rightarrow> shape bt \<noteq> [Co])
                  then Inl RuntimeError
                else if H + 2 * p < d * (kh - 1) + 1 \<or> W + 2 * p < d * (kw - 1) + 1
                  then Inl RuntimeError
                else Inr (tabulate
                  [N, Co, (H + 2 * p - d * (kh - 1) - 1) div s + 1,
                         (W + 2 * p - d * (kw - 1) - 1) div s + 1]
                  (\<lambda>idx. (case b of None \<Rightarrow> 0 | Some bt \<Rightarrow> elem bt [idx ! 1]) +
                     sum_list (map (\<lambda>c. sum_list (map (\<lambda>u. sum_list (map (\<lambda>v.
                       padded inp p [idx ! 0, (idx ! 1 div (Co div g)) * Cg + c,
                                     idx ! 2 * s + u * d, idx ! 3 * s + v * d]
                       * elem w [idx ! 1, c, u, v]) [0..<kw])) [0..<kh])) [0..<Cg]))))
      | _ \<Rightarrow> Inl RuntimeError)"

text \<open>\<^verbatim>\<open>nn.AdaptiveAvgPool2d(1)\<close>: the mean over the two spatial axes.\<close>

definition adaptive_avg_pool2d :: "tensor \<Rightarrow> error + tensor" where
  "adaptive_avg_pool2d t =
     (case shape t of
        [B, C, H, W] \<Rightarrow>
          if C = 0 \<or> H = 0 \<or> W = 0 then Inl RuntimeError
          else Inr (tabulate [B, C, 1, 1]
                 (\<lambda>idx. sum_list (map (\<lambda>i. sum_list (map (\<lambda>j. elem t [idx ! 0, idx ! 1, i, j])
                                                  [0..<W])) [0..<H]) / real (H * W)))
      | _ \<Rightarrow> Inl RuntimeError)"

definition relu :: "tensor \<Rightarrow> tensor" where
  "relu t = tmap (max 0) t"

text \<open>\<^verbatim>\<open>nn.BatchNorm2d\<close>: per channel; in training mode with the statistics of the batch
  (it raises when a channel has a single value), in evaluation mode with the running
  statistics.  The update of the running statistics in training mode does not enter the
  value returned by the call and is left out.\<close>

record BatchNorm2d =
  bn_weight :: tensor
  bn_bias :: tensor
  running_mean :: tensor
  running_var :: tensor
  bn_eps :: real

definition batch_norm2d :: "bool \<Rightarrow> BatchNorm2d \<Rightarrow> tensor \<Rightarrow> error + tensor" where
  "batch_norm2d training bn x =
     (case shape x of
        [B, C, H, W] \<Rightarrow>
          if [C] \<noteq> shape (bn_weight bn) then Inl RuntimeError
          else if training \<and> B * H * W = 1 then Inl ValueError
          else Inr (tabulate [B, C, H, W]
            (\<lambda>idx. let c = idx ! 1;
                       vals = concat (map (\<lambda>n. concat (map (\<lambda>i. map (\<lambda>j. elem x [n, c, i, j])
                                [0..<W]) [0..<H])) [0..<B]);
                       mean = (if training then sum_list vals / real (B * H * W)
                               else elem (running_mean bn) [c]);
                       var = (if training
                              then sum_list (map (\<lambda>v. (v - mean)\<^sup>2) vals) / real (B * H * W)
                              else elem (running_var bn) [c])
                   in (elem x idx - mean) / sqrt (var + bn_eps bn) * elem (bn_weight bn) [c]
                      + elem (bn_bias bn) [c]))
      | _ \<Rightarrow> Inl RuntimeError)"

text \<open>\<^verbatim>\<open>nn.Softmax(dim=d)\<close>, \<^verbatim>\<open>t.sum(dim=d)\<close>, \<^verbatim>\<open>t.repeat(reps)\<close> with one count per
  axis, and \<^verbatim>\<open>t.reshape(dims, -1)\<close>, whose last size is inferred.\<close>

definition softmax :: "nat \<Rightarrow> tensor \<Rightarrow> tensor" where
  "softmax d t =
     tabulate (shape t)
       (\<lambda>idx. exp (elem t idx)
              / sum_list (map (\<lambda>j. exp (elem t (idx[d := j]))) [0..<shape t ! d]))"

definition tsum :: "tensor \<Rightarrow> nat \<Rightarrow> tensor" where
  "tsum t d =
     tabulate (take d (shape t) @ drop (Suc d) (shape t))
       (\<lambda>idx. sum_list (map (\<lambda>j. elem t (take d idx @ [j] @ drop d idx)) [0..<shape t ! d]))"

definition repeat :: "tensor \<Rightarrow> nat list \<Rightarrow> tensor" where
  "repeat t reps =
     tabulate (map (\<lambda>(r, d). r * d) (zip reps (shape t)))
       (\<lambda>idx. elem t (map (\<lambda>(i, d). i mod d) (zip idx (shape t))))"

definition reshape_infer :: "tensor \<Rightarrow> nat list \<Rightarrow> error + tensor" where
  "reshape_infer t dims =
     (if prod_list dims = 0 \<or> numel t mod prod_list dims \<noteq> 0 then Inl RuntimeError
      else Inr (Tensor (dims @ [numel t div prod_list dims]) (data t)))"

text \<open>A broadcasting product that raises when the shapes do not broadcast.\<close>

definition mul :: "tensor \<Rightarrow> tensor \<Rightarrow> error + tensor" where
  "mul A B = (if broadcastable (shape A) (shape B) then Inr (tmul A B) else Inl RuntimeError)"

text \<open>Parameters are created from the values drawn by the initialisers, given here by
  \<open>rng\<close>, a value for each parameter name and position.  Allocating a tensor raises on a
  negative size; initialising a tensor without elements does nothing.\<close>

definition drawn :: "(string \<Rightarrow> nat \<Rightarrow> real) \<Rightarrow> string \<Rightarrow> nat list \<Rightarrow> tensor" where
  "drawn rng name shp = Tensor shp (map (rng name) [0..<prod_list shp])"

definition new_param :: "(string \<Rightarrow> nat \<Rightarrow> real) \<Rightarrow> string \<Rightarrow> int list \<Rightarrow> error + tensor" where
  "new_param rng name dims =
     (if list_ex (\<lambda>d. d < 0) dims then Inl RuntimeError
      else Inr (drawn rng name (map nat dims)))"

text \<open>An initialiser that draws 0 everywhere, for concrete modules.\<close>

definition zero_init :: "string \<Rightarrow> nat \<Rightarrow> real" where
  "zero_init name k = 0"

section \<open>The adaptive rotated convolution\<close>

text \<open>The routing function and the rotation function are arguments of the constructor and
  fields of the module: a function from the input to the gating values and the angles, or
  \<^verbatim>\<open>None\<close>, and a function from the kernel bank, the gating values and the angles to the
  synthesized weights.\<close>

record AdaptiveRotatedConv2d =
  kernel_number :: int
  in_channels :: int
  out_channels :: int
  kernel_size :: int
  stride :: int
  padding :: int
  dilation :: int
  groups :: int
  bias :: bool
  rounting_func :: "(tensor \<Rightarrow> error + tensor \<times> tensor) option"
  rotate_func :: "tensor \<Rightarrow> tensor \<Rightarrow> tensor \<Rightarrow> error + tensor"
  weight :: tensor
  fc1_conv_weight :: tensor
  fc1_bn :: BatchNorm2d
  fc2_weight :: tensor
  softmax_dim :: nat
  training :: bool

text \<open>\<^verbatim>\<open>AdaptiveRotatedConv2d.__init__\<close>.  The arguments are Python integers.  The source has
  no check of its own; it raises where \<^verbatim>\<open>in_channels // groups\<close> divides by zero and where
  the allocation of a parameter meets a negative size.  A module is created in training
  mode.\<close>

definition AdaptiveRotatedConv2d_init ::
  "(string \<Rightarrow> nat \<Rightarrow> real) \<Rightarrow> int \<Rightarrow> int \<Rightarrow> int \<Rightarrow> int \<Rightarrow> int \<Rightarrow> int \<Rightarrow> int \<Rightarrow> bool \<Rightarrow> int
     \<Rightarrow> (tensor \<Rightarrow> error + tensor \<times> tensor) option
     \<Rightarrow> (tensor \<Rightarrow> tensor \<Rightarrow> tensor \<Rightarrow> error + tensor)
     \<Rightarrow> error + AdaptiveRotatedConv2d" where
  "AdaptiveRotatedConv2d_init rng in_channels' out_channels' kernel_size' stride' padding'
       dilation' groups' bias' kernel_number' rounting_func' rotate_func' =
     (if groups' = 0 then Inl ZeroDivisionError
      else
        ebind (new_param rng ''weight''
                 [kernel_number', out_channels', in_channels' div groups', kernel_size',
                  kernel_size']) (\<lambda>w.
        let d = max (in_channels' div 16) 32
        in ebind (new_param rng ''fc1.0.weight'' [d, out_channels', 1, 1]) (\<lambda>fc1w.
        ebind (new_param rng ''fc2.weight'' [out_channels' * kernel_number', d, 1, 1]) (\<lambda>fc2w.
        Inr \<lparr> kernel_number = kernel_number',
              in_channels = in_channels',
              out_channels = out_channels',
              kernel_size = kernel_size',
              stride = stride',
              padding = padding',
              dilation = dilation',
              groups = groups',
              bias = bias',
              rounting_func = rounting_func',
              rotate_func = rotate_func',
              weight = w,
              fc1_conv_weight = fc1w,
              fc1_bn = \<lparr> bn_weight = ones [nat d], bn_bias = zeros [nat d],
                         running_mean = zeros [nat d], running_var = ones [nat d],
                         bn_eps = 1 / 100000 \<rparr>,
              fc2_weight = fc2w,
              softmax_dim = 1,
              training = True \<rparr>))))"

text \<open>\<^verbatim>\<open>AdaptiveRotatedConv2d.forward\<close>.  The field \<open>bias\<close> is not read: the convolution is
  called with \<^verbatim>\<open>bias=None\<close>.  The output of the convolution is reshaped with \<open>Cin\<close>, the
  channel count of the input, as the source has it.\<close>

definition AdaptiveRotatedConv2d_forward :: "AdaptiveRotatedConv2d \<Rightarrow> tensor \<Rightarrow> error + tensor" where
  "AdaptiveRotatedConv2d_forward m x =
     (case rounting_func m of
        None \<Rightarrow> Inl TypeError
      | Some rounting \<Rightarrow>
          ebind (rounting x) (\<lambda>(alphas, angles).
          ebind (rotate_func m (weight m) alphas angles) (\<lambda>rotated_weight.
          case shape x of
            [bs, Cin, h, w] \<Rightarrow>
              if kernel_number m < 0 then Inl RuntimeError
              else
                (let n = nat (kernel_number m);
                     x = repeat x [1, n, 1, 1]
                 in ebind (reshape x [1, bs * n * Cin, h, w]) (\<lambda>x.
                    ebind (conv2d x rotated_weight None (stride m) (padding m) (dilation m)
                             (groups m * int bs * kernel_number m)) (\<lambda>out.
                    ebind (reshape out ([bs, n, Cin] @ drop (length (shape out) - 2) (shape out)))
                      (\<lambda>out.
                    ebind (adaptive_avg_pool2d (tsum out 1)) (\<lambda>weight_vector.
                    ebind (conv2d weight_vector (fc1_conv_weight m) None 1 0 1 1) (\<lambda>weight_vector.
                    ebind (batch_norm2d (training m) (fc1_bn m) weight_vector) (\<lambda>weight_vector.
                    let weight_vector = relu weight_vector
                    in ebind (conv2d weight_vector (fc2_weight m) None 1 0 1 1) (\<lambda>weight_vector.
                    ebind (if out_channels m < 0 then Inl RuntimeError
                           else reshape_infer weight_vector [bs, n, nat (out_channels m)])
                      (\<lambda>weight_vector.
                    let weight_vector = softmax (softmax_dim m) weight_vector
                    in ebind (mul (unsqueeze weight_vector (length (shape weight_vector))) out)
                      (\<lambda>out. Inr (tsum out 1)))))))))))
          | _ \<Rightarrow> Inl ValueError)))"

section \<open>Indices and tabulated tensors\<close>

lemma valid_idx_length: "valid_idx shp idx \<Longrightarrow> length idx = length shp"
  by (induction shp idx rule: valid_idx.induct) auto

lemma ravel_lt: "valid_idx shp idx \<Longrightarrow> ravel shp idx < prod_list shp"
proof (induction shp idx rule: valid_idx.induct)
  case (2 d ds i "is")
  then have r: "ravel ds is < prod_list ds" and i: "i < d" by auto
  have "i * prod_list ds + ravel ds is < (i + 1) * prod_list ds" using r by simp
  also have "\<dots> \<le> d * prod_list ds" using i by (intro mult_le_mono1) simp
  finally show ?case by simp
qed auto

lemma unravel_ravel: "valid_idx shp idx \<Longrightarrow> unravel shp (ravel shp idx) = idx"
proof (induction shp idx rule: valid_idx.induct)
  case (2 d ds i "is")
  then have r: "ravel ds is < prod_list ds" by (auto intro: ravel_lt)
  then show ?case using 2 by simp
qed auto

lemma valid_unravel: "k < prod_list shp \<Longrightarrow> valid_idx shp (unravel shp k)"
proof (induction shp arbitrary: k)
  case (Cons d ds)
  then have pos: "0 < prod_list ds" by (cases "prod_list ds = 0") auto
  have "k div prod_list ds < d" using Cons.prems pos
    by (simp add: less_mult_imp_div_less mult.commute)
  then show ?case using Cons.IH [of "k mod prod_list ds"] pos by simp
qed auto

lemma ravel_unravel: "k < prod_list shp \<Longrightarrow> ravel shp (unravel shp k) = k"
proof (induction shp arbitrary: k)
  case (Cons d ds)
  then have pos: "0 < prod_list ds" by (cases "prod_list ds = 0") auto
  then show ?case using Cons.IH [of "k mod prod_list ds"] by simp
qed auto

lemma shape_tabulate [simp]: "shape (tabulate shp f) = shp"
  by (simp add: tabulate_def)

lemma wf_tabulate [simp]: "well_formed (tabulate shp f)"
  by (simp add: tabulate_def well_formed_def)

lemma data_tabulate_nth:
  "k < prod_list shp \<Longrightarrow> data (tabulate shp f) ! k = f (unravel shp k)"
  by (simp add: tabulate_def)

lemma elem_tabulate: "valid_idx shp idx \<Longrightarrow> elem (tabulate shp f) idx = f idx"
  by (simp add: elem_def data_tabulate_nth ravel_lt unravel_ravel)

section \<open>Elementwise operations and concatenation\<close>

lemma shape_simps [simp]:
  "shape (zeros shp) = shp" "shape (ones shp) = shp" "shape (tmap f t) = shape t"
  "shape (rsub c t) = shape t" "shape (tneg t) = shape t" "shape (flatten t) = [numel t]"
  by (simp_all add: zeros_def ones_def tmap_def rsub_def tneg_def flatten_def)

lemma wf_simps [simp]:
  "well_formed (zeros shp)" "well_formed (ones shp)"
  "well_formed (tmap f t) = well_formed t" "well_formed (rsub c t) = well_formed t"
  "well_formed (tneg t) = well_formed t" "well_formed (flatten t) = well_formed t"
  by (simp_all add: zeros_def ones_def tmap_def rsub_def tneg_def flatten_def well_formed_def numel_def)

lemma bshape_same [simp]: "bshape s s = s"
  by (simp add: bshape_def pad_shape_def map_idI zip_same_conv_map comp_def)

lemma bidx_valid: "valid_idx shp idx \<Longrightarrow> bidx shp idx = idx"
proof -
  assume v: "valid_idx shp idx"
  then have l: "length idx = length shp" by (rule valid_idx_length)
  have "map (\<lambda>(d, i). if d = 1 then 0 else i) (zip shp idx) = idx" using v
    by (induction shp idx rule: valid_idx.induct) auto
  then show ?thesis using l by (simp add: bidx_def)
qed

lemma tbin_same_shape:
  assumes "well_formed A" "well_formed B" "shape A = shape B"
  shows "tbin f A B = Tensor (shape A) (map2 f (data A) (data B))"
proof -
  have "data (tbin f A B) = map2 f (data A) (data B)"
  proof (rule nth_equalityI)
    show "length (data (tbin f A B)) = length (map2 f (data A) (data B))"
      using assms by (simp add: tbin_def tabulate_def well_formed_def)
  next
    fix k assume "k < length (data (tbin f A B))"
    then have k: "k < prod_list (shape A)" using assms by (simp add: tbin_def tabulate_def)
    have v: "valid_idx (shape A) (unravel (shape A) k)" by (rule valid_unravel [OF k])
    have "data (tbin f A B) ! k
        = f (elem A (unravel (shape A) k)) (elem B (unravel (shape A) k))"
      using k v assms(3) by (simp add: tbin_def data_tabulate_nth bidx_valid)
    also have "\<dots> = f (data A ! k) (data B ! k)"
      using k assms(3) [symmetric] by (simp add: elem_def ravel_unravel)
    finally show "data (tbin f A B) ! k = map2 f (data A) (data B) ! k"
      using assms k by (simp add: well_formed_def)
  qed
  moreover have "shape (tbin f A B) = shape A" using assms by (simp add: tbin_def)
  ultimately show ?thesis by (cases "tbin f A B") simp
qed

lemma cat_leading_one:
  assumes "ts \<noteq> []" "\<forall>t\<in>set ts. well_formed t \<and> prod_list (take d (shape t)) = 1"
  shows "data (cat ts d) = concat (map data ts)"
proof -
  have hd: "prod_list (take d (shape (hd ts))) = 1" using assms by (cases ts) auto
  have "\<And>t. t \<in> set ts \<Longrightarrow> take (prod_list (drop d (shape t))) (data t) = data t"
  proof -
    fix t assume t: "t \<in> set ts"
    have "prod_list (shape t) = prod_list (take d (shape t)) * prod_list (drop d (shape t))"
      by (metis append_take_drop_id prod_list.append)
    then show "take (prod_list (drop d (shape t))) (data t) = data t"
      using assms(2) t by (simp add: well_formed_def)
  qed
  then have m: "map (\<lambda>t. take (prod_list (drop d (shape t))) (data t)) ts = map data ts"
    by (intro map_cong) auto
  have "[0..<1] = [0::nat]" by simp
  then show ?thesis unfolding cat_def tensor.sel hd by (simp add: m del: take_all_iff)
qed

lemma shape_cat: "shape (cat ts d) = (shape (hd ts))[d := sum_list (map (\<lambda>t. shape t ! d) ts)]"
  by (simp add: cat_def)

lemma sum_lessThan_9: "(\<Sum>q<(9::nat). f q) = f 0 + f 1 + f 2 + f 3 + f 4 + f 5 + f 6 + f 7 + (f 8 :: real)"
  by (simp add: numeral_eq_Suc lessThan_Suc)

text \<open>A row: pieces of shape [1, m, N] joined along axis 1; the rows joined along axis 0.\<close>

lemma cat_row:
  assumes "ps \<noteq> []"
    and "\<forall>t\<in>set ps. well_formed t \<and> length (shape t) = 3 \<and> shape t ! 0 = 1
           \<and> shape t ! 2 = shape (hd ps) ! 2"
  shows "cat ps 1
    = Tensor [1, sum_list (map (\<lambda>t. shape t ! 1) ps), shape (hd ps) ! 2] (concat (map data ps))"
proof -
  have a: "\<forall>t\<in>set ps. well_formed t \<and> prod_list (take 1 (shape t)) = 1"
  proof
    fix t assume "t \<in> set ps"
    with assms(2) have "well_formed t" "length (shape t) = 3" "shape t ! 0 = 1" by auto
    then show "well_formed t \<and> prod_list (take 1 (shape t)) = 1"
      by (cases "shape t") auto
  qed
  have "hd ps \<in> set ps" using assms(1) by simp
  with assms(2) have "length (shape (hd ps)) = 3" "shape (hd ps) ! 0 = 1" by auto
  then obtain m n where "shape (hd ps) = [1, m, n]"
    by (cases "shape (hd ps)"; cases "tl (shape (hd ps))"; cases "tl (tl (shape (hd ps)))") auto
  then have "shape (cat ps 1) = [1, sum_list (map (\<lambda>t. shape t ! 1) ps), shape (hd ps) ! 2]"
    by (simp add: shape_cat)
  then show ?thesis using cat_leading_one [OF assms(1) a] by (cases "cat ps 1") simp
qed

lemma cat_rows:
  assumes "rs \<noteq> []" "\<forall>t\<in>set rs. well_formed t \<and> shape t = 1 # tl (shape (hd rs))"
  shows "cat rs 0 = Tensor (length rs # tl (shape (hd rs))) (concat (map data rs))"
proof -
  define sh where "sh = tl (shape (hd rs))"
  have all: "\<forall>t\<in>set rs. well_formed t \<and> shape t = 1 # sh"
    using assms(2) by (simp add: sh_def)
  then have a: "\<forall>t\<in>set rs. well_formed t \<and> prod_list (take 0 (shape t)) = 1"
    by simp
  have "hd rs \<in> set rs" using assms(1) by simp
  then have h: "shape (hd rs) = 1 # sh" using all by blast
  have "sum_list (map (\<lambda>t. shape t ! 0) rs) = length rs"
    using all by (induction rs) auto
  then have "shape (cat rs 0) = length rs # sh"
    by (simp add: shape_cat h)
  then show ?thesis using cat_leading_one [OF assms(1) a] sh_def by (cases "cat rs 0") simp
qed

lemma tbin_Tensor:
  "length u = prod_list s \<Longrightarrow> length v = prod_list s \<Longrightarrow>
     tbin f (Tensor s u) (Tensor s v) = Tensor s (map2 f u v)"
  by (simp add: tbin_same_shape well_formed_def)

lemma tmap_Tensor: "tmap f (Tensor s u) = Tensor s (map f u)"
  by (simp add: tmap_def)

lemma cat_row_Suc:
  assumes "ps \<noteq> []"
    and "\<forall>t\<in>set ps. well_formed t \<and> length (shape t) = 3 \<and> shape t ! 0 = 1
           \<and> shape t ! 2 = shape (hd ps) ! 2"
  shows "cat ps (Suc 0)
    = Tensor [1, sum_list (map (\<lambda>t. shape t ! 1) ps), shape (hd ps) ! 2] (concat (map data ps))"
  using cat_row [OF assms] by simp

lemmas piece_simps = tsub_def tadd_def tmul_def tbin_Tensor rsub_def
  tneg_def tmap_Tensor zeros_def ones_def

section \<open>Shapes and elements of the operations\<close>

lemma shape_permute [simp]: "shape (permute t perm) = map (\<lambda>p. shape t ! p) perm"
  by (simp add: permute_def)

lemma wf_permute [simp]: "well_formed (permute t perm)"
  by (simp add: permute_def)

lemma elem_permute:
  "valid_idx (map (\<lambda>p. shape t ! p) perm) idx \<Longrightarrow>
     elem (permute t perm) idx = elem t (map (\<lambda>a. idx ! index_of perm a) [0..<length perm])"
  by (simp add: permute_def elem_tabulate)

lemma shape_tbin [simp]: "shape (tbin f A B) = bshape (shape A) (shape B)"
  by (simp add: tbin_def)

lemma wf_tbin [simp]: "well_formed (tbin f A B)"
  by (simp add: tbin_def)

lemma elem_tbin:
  "valid_idx (bshape (shape A) (shape B)) idx \<Longrightarrow>
     elem (tbin f A B) idx = f (elem A (bidx (shape A) idx)) (elem B (bidx (shape B) idx))"
  by (simp add: tbin_def elem_tabulate)

lemma reshape_fail: "prod_list shp \<noteq> numel t \<Longrightarrow> reshape t shp = Inl RuntimeError"
  by (simp add: reshape_def)

lemma shape_unsqueeze [simp]: "shape (unsqueeze t d) = take d (shape t) @ [1] @ drop d (shape t)"
  by (simp add: unsqueeze_def)

lemma data_unsqueeze [simp]: "data (unsqueeze t d) = data t"
  by (simp add: unsqueeze_def)

lemma shape_tslice [simp]:
  "shape (tslice t d lo hi) = (shape t)[d := min hi (shape t ! d) - min lo (shape t ! d)]"
  by (simp add: tslice_def Let_def)

lemma wf_tslice [simp]: "well_formed (tslice t d lo hi)"
  by (simp add: tslice_def Let_def)

lemma elem_tslice:
  "valid_idx ((shape t)[d := min hi (shape t ! d) - min lo (shape t ! d)]) idx \<Longrightarrow>
     elem (tslice t d lo hi) idx = elem t (idx[d := idx ! d + min lo (shape t ! d)])"
  by (simp add: tslice_def Let_def elem_tabulate)

lemma mm_ok:
  "shape A = [r, k] \<Longrightarrow> shape B = [k, c] \<Longrightarrow>
     mm A B = Inr (tabulate [r, c]
        (\<lambda>idx. sum_list (map (\<lambda>j. elem A [idx ! 0, j] * elem B [j, idx ! 1]) [0..<k])))"
  by (simp add: mm_def)

lemma rotate_loop_map:
  "(\<And>i. i \<in> set js \<Longrightarrow>
       mm (tslice G 1 (i * 9) ((i + 1) * 9)) (tslice W 0 (i * 9) ((i + 1) * 9)) = Inr (T i)) \<Longrightarrow>
     rotate_loop G W js = Inr (map T js)"
  by (induction js) (simp_all add: ebind_def)

lemma stack_ok:
  "ts \<noteq> [] \<Longrightarrow> \<forall>t\<in>set ts. shape t = s \<Longrightarrow>
     stack ts d = Inr (tabulate (take d s @ [length ts] @ drop d s)
                  (\<lambda>idx. elem (ts ! (idx ! d)) (take d idx @ drop (Suc d) idx)))"
  by (cases ts) (auto simp: stack_def list_all_iff)

lemma ebind_Inr [simp]: "ebind (Inr v) f = f v"
  by (simp add: ebind_def)

lemma ebind_Inl [simp]: "ebind (Inl e) f = Inl e"
  by (simp add: ebind_def)

section \<open>The two templates\<close>

lemma elem_Tensor3: "elem (Tensor [d0, d1, d2] D) [p, q, k] = D ! (p * (d1 * d2) + (q * d2 + k))"
  by (simp add: elem_def)

lemma pieces_abc:
  assumes "length xs = N" "length ys = N"
  shows "tsub (Tensor [1, 1, N] xs) (Tensor [1, 1, N] ys) = Tensor [1, 1, N] (map2 (-) xs ys)"
    and "tmul (Tensor [1, 1, N] xs) (Tensor [1, 1, N] ys) = Tensor [1, 1, N] (map2 (*) xs ys)"
    and "tadd (Tensor [1, 1, N] xs) (Tensor [1, 1, N] ys) = Tensor [1, 1, N] (map2 (+) xs ys)"
  using assms by (simp_all add: piece_simps)

lemmas template_simps = piece_simps cat_row_Suc cat_rows well_formed_def

lemma rot_mat_positive_shape:
  assumes "length xs = N" "length ys = N"
  shows "shape (rot_mat_positive (Tensor [1, 1, N] xs) (Tensor [1, 1, N] ys) N) = [9, 9, N]
       \<and> well_formed (rot_mat_positive (Tensor [1, 1, N] xs) (Tensor [1, 1, N] ys) N)"
  unfolding rot_mat_positive_def pieces_abc [OF assms] Let_def
  using assms by (simp add: template_simps)

lemma rot_mat_negative_shape:
  assumes "length xs = N" "length ys = N"
  shows "shape (rot_mat_negative (Tensor [1, 1, N] xs) (Tensor [1, 1, N] ys) N) = [9, 9, N]
       \<and> well_formed (rot_mat_negative (Tensor [1, 1, N] xs) (Tensor [1, 1, N] ys) N)"
  unfolding rot_mat_negative_def pieces_abc [OF assms] Let_def
  using assms by (simp add: template_simps)

lemma rot_mat_positive_rowsum:
  assumes "length xs = N" "length ys = N" "k < N" "p < 9"
  shows "(\<Sum>q<(9::nat). elem (rot_mat_positive (Tensor [1, 1, N] xs) (Tensor [1, 1, N] ys) N) [p, q, k]) = 1"
proof -
  have P: "p = 0 \<or> p = 1 \<or> p = 2 \<or> p = 3 \<or> p = 4 \<or> p = 5 \<or> p = 6 \<or> p = 7 \<or> p = 8"
    using assms(4) by arith
  show ?thesis
    unfolding rot_mat_positive_def pieces_abc [OF assms(1,2)] Let_def sum_lessThan_9
    using assms(1,2,3) P
    apply (simp add: template_simps elem_Tensor3)
    apply (elim disjE)
            apply (simp_all add: nth_append)
    done
qed

lemma rot_mat_negative_rowsum:
  assumes "length xs = N" "length ys = N" "k < N" "p < 9"
  shows "(\<Sum>q<(9::nat). elem (rot_mat_negative (Tensor [1, 1, N] xs) (Tensor [1, 1, N] ys) N) [p, q, k]) = 1"
proof -
  have P: "p = 0 \<or> p = 1 \<or> p = 2 \<or> p = 3 \<or> p = 4 \<or> p = 5 \<or> p = 6 \<or> p = 7 \<or> p = 8"
    using assms(4) by arith
  show ?thesis
    unfolding rot_mat_negative_def pieces_abc [OF assms(1,2)] Let_def sum_lessThan_9
    using assms(1,2,3) P
    apply (simp add: template_simps elem_Tensor3)
    apply (elim disjE)
            apply (simp_all add: nth_append)
    done
qed

lemma rot_mat_positive_zero:
  assumes "length xs = N" "length ys = N" "k < N" "p < 9" "q < 9" "xs ! k = 1" "ys ! k = 0"
  shows "elem (rot_mat_positive (Tensor [1, 1, N] xs) (Tensor [1, 1, N] ys) N) [p, q, k]
       = (if p = q then 1 else 0)"
proof -
  have P: "p = 0 \<or> p = 1 \<or> p = 2 \<or> p = 3 \<or> p = 4 \<or> p = 5 \<or> p = 6 \<or> p = 7 \<or> p = 8"
    using assms(4) by arith
  have Q: "q = 0 \<or> q = 1 \<or> q = 2 \<or> q = 3 \<or> q = 4 \<or> q = 5 \<or> q = 6 \<or> q = 7 \<or> q = 8"
    using assms(5) by arith
  show ?thesis
    unfolding rot_mat_positive_def pieces_abc [OF assms(1,2)] Let_def
    using assms(1,2,3,6,7) P Q
    apply (simp add: template_simps elem_Tensor3)
    apply (elim disjE)
            apply (simp_all add: nth_append)
    done
qed

lemma rot_mat_negative_zero:
  assumes "length xs = N" "length ys = N" "k < N" "p < 9" "q < 9" "xs ! k = 1" "ys ! k = 0"
  shows "elem (rot_mat_negative (Tensor [1, 1, N] xs) (Tensor [1, 1, N] ys) N) [p, q, k]
       = (if p = q then 1 else 0)"
proof -
  have P: "p = 0 \<or> p = 1 \<or> p = 2 \<or> p = 3 \<or> p = 4 \<or> p = 5 \<or> p = 6 \<or> p = 7 \<or> p = 8"
    using assms(4) by arith
  have Q: "q = 0 \<or> q = 1 \<or> q = 2 \<or> q = 3 \<or> q = 4 \<or> q = 5 \<or> q = 6 \<or> q = 7 \<or> q = 8"
    using assms(5) by arith
  show ?thesis
    unfolding rot_mat_negative_def pieces_abc [OF assms(1,2)] Let_def
    using assms(1,2,3,6,7) P Q
    apply (simp add: template_simps elem_Tensor3)
    apply (elim disjE)
            apply (simp_all add: nth_append)
    done
qed

section \<open>The blend and the rotation matrices\<close>

lemma flat_index_lt: "s < (bs::nat) \<Longrightarrow> i < g \<Longrightarrow> s * g + i < bs * g"
proof -
  assume s: "s < bs" and i: "i < g"
  have "s * g + i < (s + 1) * g" using i by simp
  also have "\<dots> \<le> bs * g" using s by (intro mult_le_mono1) simp
  finally show ?thesis .
qed

lemma bshape_mask: "bshape [1, 1, N] [9, 9, N] = [9, 9, N]"
  "bshape [Suc 0, Suc 0, N] [9, 9, N] = [9, 9, N]"
  by (simp_all add: bshape_def pad_shape_def Let_def)

lemma rot_mat_blend_shape:
  assumes "length ts = N"
  shows "shape (rot_mat_blend (Tensor [N] ts)) = [9, 9, N]"
  using rot_mat_positive_shape [of "map cos ts" N "map sin ts"]
      rot_mat_negative_shape [of "map cos ts" N "map sin ts"] assms
  by (simp add: rot_mat_blend_def Let_def numel_def unsqueeze_def tmap_def tadd_def tmul_def
      bshape_mask)

lemma rot_mat_blend_elem:
  assumes "length ts = N" "p < 9" "q < 9" "k < N"
  shows "elem (rot_mat_blend (Tensor [N] ts)) [p, q, k] =
      (if ts ! k \<ge> 0
       then elem (rot_mat_positive (Tensor [1, 1, N] (map cos ts)) (Tensor [1, 1, N] (map sin ts)) N) [p, q, k]
       else elem (rot_mat_negative (Tensor [1, 1, N] (map cos ts)) (Tensor [1, 1, N] (map sin ts)) N) [p, q, k])"
proof -
  define X where "X = Tensor [1, 1, N] (map cos ts)"
  define Y where "Y = Tensor [1, 1, N] (map sin ts)"
  define M where "M = Tensor [1, 1, N] (map (\<lambda>v. if v \<ge> 0 then 1 else 0) ts)"
  have sp: "shape (rot_mat_positive X Y N) = [9, 9, N]"
    and sn: "shape (rot_mat_negative X Y N) = [9, 9, N]"
    using rot_mat_positive_shape [of "map cos ts" N "map sin ts"]
      rot_mat_negative_shape [of "map cos ts" N "map sin ts"] assms(1)
    by (simp_all add: X_def Y_def)
  have B: "rot_mat_blend (Tensor [N] ts)
      = tadd (tmul M (rot_mat_positive X Y N)) (tmul (rsub 1 M) (rot_mat_negative X Y N))"
    by (simp add: rot_mat_blend_def Let_def numel_def unsqueeze_def tmap_def X_def Y_def M_def)
  note bs = bshape_mask
  have sM: "shape M = [1, 1, N]" "shape (rsub 1 M) = [1, 1, N]" by (simp_all add: M_def)
  have kk: "(if N = 1 then 0 else k) = k" using assms(4) by auto
  have b1: "bidx [Suc 0, Suc 0, N] [p, q, k] = [0, 0, k]"
    and b9: "bidx [9, 9, N] [p, q, k] = [p, q, k]"
    using kk by (simp_all add: bidx_def)
  have v: "valid_idx [9, 9, N] [p, q, k]" using assms by simp
  have e1: "elem (tmul M (rot_mat_positive X Y N)) [p, q, k]
      = elem M [0, 0, k] * elem (rot_mat_positive X Y N) [p, q, k]"
    unfolding tmul_def using v by (subst elem_tbin) (simp_all add: sM sp bs b1 b9)
  have e2: "elem (tmul (rsub 1 M) (rot_mat_negative X Y N)) [p, q, k]
      = elem (rsub 1 M) [0, 0, k] * elem (rot_mat_negative X Y N) [p, q, k]"
    unfolding tmul_def using v by (subst elem_tbin) (simp_all add: sM sn bs b1 b9)
  have e3: "elem (rot_mat_blend (Tensor [N] ts)) [p, q, k]
      = elem (tmul M (rot_mat_positive X Y N)) [p, q, k]
        + elem (tmul (rsub 1 M) (rot_mat_negative X Y N)) [p, q, k]"
    unfolding B tadd_def using v
    by (subst elem_tbin) (simp_all add: tmul_def sM sp sn bs bidx_valid)
  have m: "elem M [0, 0, k] = (if ts ! k \<ge> 0 then 1 else 0)"
    "elem (rsub 1 M) [0, 0, k] = (if ts ! k \<ge> 0 then 0 else 1)"
    using assms(1,4) by (simp_all add: M_def elem_def rsub_def tmap_def)
  show "elem (rot_mat_blend (Tensor [N] ts)) [p, q, k] =
      (if ts ! k \<ge> 0
       then elem (rot_mat_positive (Tensor [1, 1, N] (map cos ts)) (Tensor [1, 1, N] (map sin ts)) N) [p, q, k]
       else elem (rot_mat_negative (Tensor [1, 1, N] (map cos ts)) (Tensor [1, 1, N] (map sin ts)) N) [p, q, k])"
    unfolding e3 e1 e2 m by (simp add: X_def Y_def)
qed

lemma get_rotation_matrix_ok:
  assumes "well_formed thetas" "shape thetas = [bs, g]"
  shows "get_rotation_matrix thetas
    = Inr (Tensor [bs, g, 9, 9] (data (permute (rot_mat_blend (flatten thetas)) [2, 0, 1])))"
proof -
  have f: "flatten thetas = Tensor [bs * g] (data thetas)"
    using assms by (simp add: flatten_def numel_def)
  have l: "length (data thetas) = bs * g" using assms by (simp add: well_formed_def)
  have sb: "shape (rot_mat_blend (flatten thetas)) = [9, 9, bs * g]"
    unfolding f by (rule rot_mat_blend_shape [OF l])
  show ?thesis
    using assms(2) by (simp add: get_rotation_matrix_def Let_def sb reshape_def numel_def)
qed

lemma get_rotation_matrix_elem:
  assumes "well_formed thetas" "shape thetas = [bs, g]" "s < bs" "i < g" "p < 9" "q < 9"
  shows "elem (Tensor [bs, g, 9, 9] (data (permute (rot_mat_blend (flatten thetas)) [2, 0, 1]))) [s, i, p, q]
      = elem (rot_mat_blend (Tensor [bs * g] (data thetas))) [p, q, s * g + i]"
proof -
  have f: "flatten thetas = Tensor [bs * g] (data thetas)"
    using assms by (simp add: flatten_def numel_def)
  have l: "length (data thetas) = bs * g" using assms by (simp add: well_formed_def)
  have sb: "shape (rot_mat_blend (flatten thetas)) = [9, 9, bs * g]"
    unfolding f by (rule rot_mat_blend_shape [OF l])
  have k: "s * g + i < bs * g" using assms(3,4) by (rule flat_index_lt)
  have "elem (Tensor [bs, g, 9, 9] (data (permute (rot_mat_blend (flatten thetas)) [2, 0, 1]))) [s, i, p, q]
      = elem (permute (rot_mat_blend (flatten thetas)) [2, 0, 1]) [s * g + i, p, q]"
    by (simp add: elem_def sb algebra_simps)
  also have "\<dots> = elem (rot_mat_blend (flatten thetas)) [p, q, s * g + i]"
    using k assms(5,6) by (subst elem_permute) (simp_all add: sb index_of_def)
  finally show ?thesis by (simp add: f)
qed

section \<open>The stacked products of the weight synthesizer\<close>

lemma rotate_stages_ok:
  assumes wfW: "well_formed W" and wfL: "well_formed L" and wfT: "well_formed T"
    and sT: "shape T = [b, n]" and sL: "shape L = [b, n]"
    and sW: "shape W = [n, Cout, Cin, 3, 3]" and n0: "0 < n"
  obtains S where "rotate_stages W L T b n Cout Cin = Inr S"
    and "shape S = [b * 9, n, Cout * Cin]" and "well_formed S"
    and "\<And>s i o' c p. s < b \<Longrightarrow> i < n \<Longrightarrow> o' < Cout \<Longrightarrow> c < Cin \<Longrightarrow> p < 9 \<Longrightarrow>
       \<exists>R. get_rotation_matrix T = Inr R \<and>
       elem S [s * 9 + p, i, o' * Cin + c]
         = sum_list (map (\<lambda>q. (elem R [s, i, p, q] * elem L [s, i])
                               * elem W [i, o', c, q div 3, q mod 3]) [0..<9])"
proof -
  define R where "R = Tensor [b, n, 9, 9] (data (permute (rot_mat_blend (flatten T)) [2, 0, 1]))"
  have gR: "get_rotation_matrix T = Inr R"
    unfolding R_def by (rule get_rotation_matrix_ok [OF wfT sT])
  have lT: "length (data T) = b * n" using wfT sT by (simp add: well_formed_def)
  have sR: "shape R = [b, n, 9, 9]" by (simp add: R_def)
  define L4 where "L4 = unsqueeze (unsqueeze L 2) 3"
  have sL4: "shape L4 = [b, n, 1, 1]" by (simp add: L4_def sL)
  define G where "G = tmul R L4"
  have bsG: "bshape [b, n, 9, 9] [b, n, Suc 0, Suc 0] = [b, n, 9, 9]"
    by (simp add: bshape_def pad_shape_def Let_def)
  have sG: "shape G = [b, n, 9, 9]" by (simp add: G_def tmul_def sR sL4 bsG)
  define G1 where "G1 = permute G [0, 2, 1, 3]"
  have sG1: "shape G1 = [b, 9, n, 9]" by (simp add: G1_def sG)
  define G2 where "G2 = Tensor [b * 9, n * 9] (data G1)"
  have rG: "reshape G1 [b * 9, n * 9] = Inr G2"
    by (simp add: reshape_def numel_def sG1 G2_def)
  define W1 where "W1 = permute W [0, 3, 4, 1, 2]"
  have sW1: "shape W1 = [n, 3, 3, Cout, Cin]" by (simp add: W1_def sW)
  define W2 where "W2 = Tensor [n * 9, Cout * Cin] (data W1)"
  have rW: "reshape W1 [n * 9, Cout * Cin] = Inr W2"
    by (simp add: reshape_def numel_def sW1 W2_def)
  define Tm where "Tm = (\<lambda>i. tabulate [b * 9, Cout * Cin]
     (\<lambda>idx. sum_list (map (\<lambda>j. elem (tslice G2 1 (i * 9) ((i + 1) * 9)) [idx ! 0, j]
                                * elem (tslice W2 0 (i * 9) ((i + 1) * 9)) [j, idx ! 1]) [0..<9])))"
  have mmT: "mm (tslice G2 1 (i * 9) ((i + 1) * 9)) (tslice W2 0 (i * 9) ((i + 1) * 9)) = Inr (Tm i)"
    if "i \<in> set [0..<n]" for i
  proof -
    from that have i: "i < n" by simp
    have m: "min ((i + 1) * 9) (n * 9) - min (i * 9) (n * 9) = 9" using i by (simp add: min_def)
    have "shape (tslice G2 1 (i * 9) ((i + 1) * 9)) = [b * 9, 9]"
      using m by (simp add: G2_def)
    moreover have "shape (tslice W2 0 (i * 9) ((i + 1) * 9)) = [9, Cout * Cin]"
      using m by (simp add: W2_def)
    ultimately show ?thesis unfolding Tm_def by (rule mm_ok)
  qed
  have loop: "rotate_loop G2 W2 [0..<n] = Inr (map Tm [0..<n])"
    by (rule rotate_loop_map) (rule mmT)
  define S where "S = tabulate [b * 9, n, Cout * Cin]
     (\<lambda>idx. elem (map Tm [0..<n] ! (idx ! 1)) (take 1 idx @ drop (Suc 1) idx))"
  have st: "stack (map Tm [0..<n]) 1 = Inr S"
    unfolding S_def using n0
    by (subst stack_ok [where s = "[b * 9, Cout * Cin]"]) (auto simp: Tm_def)
  have res: "rotate_stages W L T b n Cout Cin = Inr S"
    unfolding rotate_stages_def Let_def gR ebind_Inr L4_def [symmetric] G_def [symmetric]
        G1_def [symmetric] rG W1_def [symmetric] rW loop st by (rule refl)
  have el: "\<exists>R. get_rotation_matrix T = Inr R \<and>
       elem S [s * 9 + p, i, o' * Cin + c]
         = sum_list (map (\<lambda>q. (elem R [s, i, p, q] * elem L [s, i])
                               * elem W [i, o', c, q div 3, q mod 3]) [0..<9])"
    if s: "s < b" and i: "i < n" and o': "o' < Cout" and c: "c < Cin" and p: "p < 9"
    for s i o' c p
  proof -
    have r: "s * 9 + p < b * 9" using s p by (rule flat_index_lt)
    have m: "o' * Cin + c < Cout * Cin" using o' c by (rule flat_index_lt)
    have mn: "min ((i + 1) * 9) (n * 9) - min (i * 9) (n * 9) = 9" "min (i * 9) (n * 9) = i * 9"
      using i by (simp_all add: min_def)
    have e1: "elem S [s * 9 + p, i, o' * Cin + c] = elem (Tm i) [s * 9 + p, o' * Cin + c]"
      unfolding S_def using r m i by (subst elem_tabulate) simp_all
    have e2: "elem (Tm i) [s * 9 + p, o' * Cin + c]
        = sum_list (map (\<lambda>q. elem (tslice G2 1 (i * 9) ((i + 1) * 9)) [s * 9 + p, q]
                            * elem (tslice W2 0 (i * 9) ((i + 1) * 9)) [q, o' * Cin + c]) [0..<9])"
      unfolding Tm_def using r m by (subst elem_tabulate) simp_all
    have e3: "elem (tslice G2 1 (i * 9) ((i + 1) * 9)) [s * 9 + p, q]
        = elem R [s, i, p, q] * elem L [s, i]" if q: "q < 9" for q
    proof -
      have "elem (tslice G2 1 (i * 9) ((i + 1) * 9)) [s * 9 + p, q] = elem G2 [s * 9 + p, q + i * 9]"
        using r q mn by (subst elem_tslice) (simp_all add: G2_def)
      also have "\<dots> = elem G1 [s, p, i, q]"
        by (simp add: G2_def elem_def sG1 algebra_simps)
      also have "\<dots> = elem G [s, i, p, q]"
        unfolding G1_def using s i p q by (subst elem_permute) (simp_all add: sG index_of_def)
      also have "\<dots> = elem R [s, i, p, q] * elem L4 [s, i, 0, 0]"
      proof -
        have sb: "(if b = 1 then 0 else s) = s" "(if n = 1 then 0 else i) = i"
          using s i by auto
        show ?thesis
          unfolding G_def tmul_def using s i p q
          by (subst elem_tbin) (auto simp: sR sL4 bsG bidx_def)
      qed
      also have "elem L4 [s, i, 0, 0] = elem L [s, i]"
        by (simp add: elem_def sL4 sL L4_def)
      finally show ?thesis .
    qed
    have e4: "elem (tslice W2 0 (i * 9) ((i + 1) * 9)) [q, o' * Cin + c]
        = elem W [i, o', c, q div 3, q mod 3]" if q: "q < 9" for q
    proof -
      define u where "u = q div 3"
      define v where "v = q mod 3"
      have qq: "u < 3" "v < 3" and quv: "q = u * 3 + v" using q by (auto simp: u_def v_def)
      have "elem (tslice W2 0 (i * 9) ((i + 1) * 9)) [q, o' * Cin + c] = elem W2 [q + i * 9, o' * Cin + c]"
        using m q mn by (subst elem_tslice) (simp_all add: W2_def)
      also have "\<dots> = elem W1 [i, u, v, o', c]"
        by (simp add: W2_def elem_def sW1 quv algebra_simps)
      also have "\<dots> = elem W [i, o', c, u, v]"
        unfolding W1_def using i o' c qq by (subst elem_permute) (simp_all add: sW index_of_def)
      finally show ?thesis by (simp add: u_def v_def)
    qed
    have eq: "elem (tslice G2 1 (i * 9) ((i + 1) * 9)) [s * 9 + p, q]
                * elem (tslice W2 0 (i * 9) ((i + 1) * 9)) [q, o' * Cin + c]
              = (elem R [s, i, p, q] * elem L [s, i]) * elem W [i, o', c, q div 3, q mod 3]"
      if "q \<in> set [0..<9]" for q
    proof -
      from that have q: "q < 9" by simp
      show ?thesis unfolding e3 [OF q] e4 [OF q] by (rule refl)
    qed
    have "elem S [s * 9 + p, i, o' * Cin + c]
         = sum_list (map (\<lambda>q. (elem R [s, i, p, q] * elem L [s, i])
                               * elem W [i, o', c, q div 3, q mod 3]) [0..<9])"
      unfolding e1 e2 by (rule arg_cong [where f = sum_list]) (rule map_cong [OF refl eq])
    with gR show ?thesis by blast
  qed
  show thesis
    by (rule that [OF res _ _ el]) (simp_all add: S_def)
qed

section \<open>Failure and success of the weight synthesizer\<close>

lemma stack_empty: "stack [] d = Inl RuntimeError"
  by (simp add: stack_def)

lemma reshape_cases:
  "(\<exists>w. reshape t shp = Inr w) \<or> reshape t shp = Inl RuntimeError"
  by (simp add: reshape_def)

lemma rotate_stages_no_variant:
  assumes "well_formed T" "shape T = [b, 0]"
  shows "rotate_stages W L T b 0 Cout Cin = Inl RuntimeError"
proof -
  have g: "get_rotation_matrix T
      = Inr (Tensor [b, 0, 9, 9] (data (permute (rot_mat_blend (flatten T)) [2, 0, 1])))"
    by (rule get_rotation_matrix_ok [OF assms])
  have l: "rotate_loop G W' [0..<0] = Inr []" for G W' by simp
  have r2: "ebind (reshape t shp) (\<lambda>w. Inl RuntimeError) = Inl RuntimeError" for t shp
    using reshape_cases [of t shp] by auto
  show ?thesis
    unfolding rotate_stages_def g ebind_Inr Let_def l stack_empty r2 by (rule refl)
qed

lemma brm_unfold:
  assumes "shape T = [b, n]" "shape L = [b, n]" "shape W = [n, Cout, Cin, k1, k2]"
  shows "batch_rotate_multiweight W L T =
           ebind (rotate_stages W L T b n Cout Cin) (\<lambda>weights.
           ebind (reshape weights [b, 3, 3, 4, Cout, Cin]) (\<lambda>weights.
           reshape (permute weights [0, 3, 4, 5, 1, 2]) [b * n * Cout, Cin, 3, 3]))"
  using assms by (simp add: batch_rotate_multiweight_def Let_def)

lemma brm_wrong_kernel_number:
  assumes wf: "well_formed W" "well_formed L" "well_formed T"
    and sh: "shape T = [b, n]" "shape L = [b, n]" "shape W = [n, Cout, Cin, 3, 3]"
    and pos: "0 < b" "0 < Cout" "0 < Cin" and n: "n \<noteq> 4"
  shows "batch_rotate_multiweight W L T = Inl RuntimeError"
proof (cases "n = 0")
  case True
  have "rotate_stages W L T b 0 Cout Cin = Inl RuntimeError"
    using wf(3) sh(1) unfolding True by (rule rotate_stages_no_variant)
  then show ?thesis
    unfolding brm_unfold [OF sh] True by simp
next
  case False
  then have n0: "0 < n" by simp
  show ?thesis
  proof (rule rotate_stages_ok [OF wf sh n0])
    fix S assume S: "rotate_stages W L T b n Cout Cin = Inr S"
      "shape S = [b * 9, n, Cout * Cin]"
    have "prod_list [b, 3, 3, 4, Cout, Cin] \<noteq> numel S"
      using pos n by (simp add: numel_def S(2))
    then have "reshape S [b, 3, 3, 4, Cout, Cin] = Inl RuntimeError"
      by (rule reshape_fail)
    then show ?thesis unfolding brm_unfold [OF sh] S(1) by simp
  qed
qed

lemma brm_four:
  assumes wf: "well_formed W" "well_formed L" "well_formed T"
    and sh: "shape T = [b, 4]" "shape L = [b, 4]" "shape W = [4, Cout, Cin, 3, 3]"
  obtains out where "batch_rotate_multiweight W L T = Inr out"
    and "shape out = [b * 4 * Cout, Cin, 3, 3]" and "well_formed out"
    and "\<And>s i o' c u v. s < b \<Longrightarrow> i < 4 \<Longrightarrow> o' < Cout \<Longrightarrow> c < Cin \<Longrightarrow> u < 3 \<Longrightarrow> v < 3 \<Longrightarrow>
       \<exists>R. get_rotation_matrix T = Inr R \<and>
       elem out [(s * 4 + i) * Cout + o', c, u, v]
         = sum_list (map (\<lambda>q. (elem R [s, i, u * 3 + v, q] * elem L [s, i])
                               * elem W [i, o', c, q div 3, q mod 3]) [0..<9])"
proof (rule rotate_stages_ok [OF wf sh])
  show "0 < (4::nat)" by simp
next
  fix S
  assume S: "rotate_stages W L T b 4 Cout Cin = Inr S" "shape S = [b * 9, 4, Cout * Cin]"
       "well_formed S"
    and el: "\<And>s i o' c p. s < b \<Longrightarrow> i < 4 \<Longrightarrow> o' < Cout \<Longrightarrow> c < Cin \<Longrightarrow> p < 9 \<Longrightarrow>
       \<exists>R. get_rotation_matrix T = Inr R \<and>
       elem S [s * 9 + p, i, o' * Cin + c]
         = sum_list (map (\<lambda>q. (elem R [s, i, p, q] * elem L [s, i])
                               * elem W [i, o', c, q div 3, q mod 3]) [0..<9])"
  define V where "V = Tensor [b, 3, 3, 4, Cout, Cin] (data S)"
  have rV: "reshape S [b, 3, 3, 4, Cout, Cin] = Inr V"
    by (simp add: reshape_def numel_def S(2) V_def)
  define P where "P = permute V [0, 3, 4, 5, 1, 2]"
  have sP: "shape P = [b, 4, Cout, Cin, 3, 3]" by (simp add: P_def V_def)
  define out where "out = Tensor [b * 4 * Cout, Cin, 3, 3] (data P)"
  have rO: "reshape P [b * 4 * Cout, Cin, 3, 3] = Inr out"
    by (simp add: reshape_def numel_def sP out_def)
  have res: "batch_rotate_multiweight W L T = Inr out"
    unfolding brm_unfold [OF sh] S(1) ebind_Inr rV P_def [symmetric] rO by (rule refl)
  have wfP: "well_formed P" by (simp add: P_def)
  have wfo: "well_formed out"
    using wfP by (simp add: well_formed_def out_def sP)
  have e: "\<exists>R. get_rotation_matrix T = Inr R \<and>
       elem out [(s * 4 + i) * Cout + o', c, u, v]
         = sum_list (map (\<lambda>q. (elem R [s, i, u * 3 + v, q] * elem L [s, i])
                               * elem W [i, o', c, q div 3, q mod 3]) [0..<9])"
    if "s < b" "i < 4" "o' < Cout" "c < Cin" "u < 3" "v < 3" for s i o' c u v
  proof -
    have p: "u * 3 + v < 9" using that(5,6) by simp
    have "elem out [(s * 4 + i) * Cout + o', c, u, v] = elem P [s, i, o', c, u, v]"
      by (simp add: out_def elem_def sP algebra_simps)
    also have "\<dots> = elem V [s, u, v, i, o', c]"
      unfolding P_def using that by (subst elem_permute) (simp_all add: V_def index_of_def)
    also have "\<dots> = elem S [s * 9 + (u * 3 + v), i, o' * Cin + c]"
      by (simp add: V_def elem_def S(2) algebra_simps)
    finally have "elem out [(s * 4 + i) * Cout + o', c, u, v]
        = elem S [s * 9 + (u * 3 + v), i, o' * Cin + c]" .
    then show ?thesis using el [OF that(1,2,3,4) p] by simp
  qed
  show thesis by (rule that [OF res _ wfo e]) (simp add: out_def)
qed

section \<open>Properties of the rotation operator\<close>

lemma cos_sin_inputs:
  assumes "well_formed thetas" "shape thetas = [bs, g]"
  shows "unsqueeze (unsqueeze (tmap cos (flatten thetas)) 0) 0
           = Tensor [1, 1, bs * g] (map cos (data thetas))"
    and "unsqueeze (unsqueeze (tmap sin (flatten thetas)) 0) 0
           = Tensor [1, 1, bs * g] (map sin (data thetas))"
    and "flatten thetas = Tensor [bs * g] (data thetas)"
    and "length (data thetas) = bs * g"
  using assms by (simp_all add: unsqueeze_def tmap_def flatten_def numel_def well_formed_def)

lemma elem_thetas: "shape thetas = [bs, g] \<Longrightarrow> elem thetas [s, i] = data thetas ! (s * g + i)"
  by (simp add: elem_def)

text \<open>
  Claim C3.  For every angle tensor of shape \<open>[bs, g]\<close>, \<^verbatim>\<open>_get_rotation_matrix\<close> returns a
  tensor of shape \<open>[bs, g, 9, 9]\<close> in which each of the nine rows of every operator sums to
  exactly 1; the same holds, at every angle and whatever its sign, for the rows of the
  template for \<open>theta \<ge> 0\<close> and of the template for \<open>theta < 0\<close>.
\<close>

theorem rotation_rows_sum_to_one:
  assumes "well_formed thetas" and "shape thetas = [bs, g]"
  shows "\<exists>R. get_rotation_matrix thetas = Inr R \<and> shape R = [bs, g, 9, 9] \<and>
    (\<forall>s<bs. \<forall>i<g. \<forall>p<9.
       (\<Sum>q<(9::nat). elem R [s, i, p, q]) = 1 \<and>
       (\<Sum>q<(9::nat). elem (rot_mat_positive
           (unsqueeze (unsqueeze (tmap cos (flatten thetas)) 0) 0)
           (unsqueeze (unsqueeze (tmap sin (flatten thetas)) 0) 0) (bs * g)) [p, q, s * g + i]) = 1 \<and>
       (\<Sum>q<(9::nat). elem (rot_mat_negative
           (unsqueeze (unsqueeze (tmap cos (flatten thetas)) 0) 0)
           (unsqueeze (unsqueeze (tmap sin (flatten thetas)) 0) 0) (bs * g)) [p, q, s * g + i]) = 1)"
proof -
  note cs = cos_sin_inputs [OF assms]
  define R where "R = Tensor [bs, g, 9, 9] (data (permute (rot_mat_blend (flatten thetas)) [2, 0, 1]))"
  have gR: "get_rotation_matrix thetas = Inr R"
    unfolding R_def by (rule get_rotation_matrix_ok [OF assms])
  have rows: "(\<Sum>q<(9::nat). elem R [s, i, p, q]) = 1 \<and>
       (\<Sum>q<(9::nat). elem (rot_mat_positive
           (unsqueeze (unsqueeze (tmap cos (flatten thetas)) 0) 0)
           (unsqueeze (unsqueeze (tmap sin (flatten thetas)) 0) 0) (bs * g)) [p, q, s * g + i]) = 1 \<and>
       (\<Sum>q<(9::nat). elem (rot_mat_negative
           (unsqueeze (unsqueeze (tmap cos (flatten thetas)) 0) 0)
           (unsqueeze (unsqueeze (tmap sin (flatten thetas)) 0) 0) (bs * g)) [p, q, s * g + i]) = 1"
    if s: "s < bs" and i: "i < g" and p: "p < 9" for s i p
  proof -
    have k: "s * g + i < bs * g" using s i by (rule flat_index_lt)
    have lc: "length (map cos (data thetas)) = bs * g" "length (map sin (data thetas)) = bs * g"
      using cs(4) by simp_all
    have pos: "(\<Sum>q<(9::nat). elem (rot_mat_positive (Tensor [1, 1, bs * g] (map cos (data thetas)))
        (Tensor [1, 1, bs * g] (map sin (data thetas))) (bs * g)) [p, q, s * g + i]) = 1"
      by (rule rot_mat_positive_rowsum [OF lc k p])
    have neg: "(\<Sum>q<(9::nat). elem (rot_mat_negative (Tensor [1, 1, bs * g] (map cos (data thetas)))
        (Tensor [1, 1, bs * g] (map sin (data thetas))) (bs * g)) [p, q, s * g + i]) = 1"
      by (rule rot_mat_negative_rowsum [OF lc k p])
    have blend: "elem R [s, i, p, q]
        = (if data thetas ! (s * g + i) \<ge> 0
           then elem (rot_mat_positive (Tensor [1, 1, bs * g] (map cos (data thetas)))
                  (Tensor [1, 1, bs * g] (map sin (data thetas))) (bs * g)) [p, q, s * g + i]
           else elem (rot_mat_negative (Tensor [1, 1, bs * g] (map cos (data thetas)))
                  (Tensor [1, 1, bs * g] (map sin (data thetas))) (bs * g)) [p, q, s * g + i])"
      if "q \<in> {..<(9::nat)}" for q
    proof -
      from that have q: "q < 9" by simp
      show ?thesis
        unfolding R_def get_rotation_matrix_elem [OF assms s i p q]
        by (rule rot_mat_blend_elem [OF cs(4) p q k])
    qed
    have "(\<Sum>q<(9::nat). elem R [s, i, p, q]) = 1"
    proof (cases "data thetas ! (s * g + i) \<ge> 0")
      case True
      have "(\<Sum>q<(9::nat). elem R [s, i, p, q])
        = (\<Sum>q<(9::nat). elem (rot_mat_positive (Tensor [1, 1, bs * g] (map cos (data thetas)))
        (Tensor [1, 1, bs * g] (map sin (data thetas))) (bs * g)) [p, q, s * g + i])"
        by (rule sum.cong [OF refl]) (simp only: blend True if_True)
      then show ?thesis unfolding pos .
    next
      case False
      have "(\<Sum>q<(9::nat). elem R [s, i, p, q])
        = (\<Sum>q<(9::nat). elem (rot_mat_negative (Tensor [1, 1, bs * g] (map cos (data thetas)))
        (Tensor [1, 1, bs * g] (map sin (data thetas))) (bs * g)) [p, q, s * g + i])"
        by (rule sum.cong [OF refl]) (simp only: blend False if_False)
      then show ?thesis unfolding neg .
    qed
    then show ?thesis unfolding cs(1,2) pos neg by simp
  qed
  have sR: "shape R = [bs, g, 9, 9]" by (simp add: R_def)
  show ?thesis
    by (rule exI [of _ R]) (intro conjI allI impI gR sR rows)
qed

theorem rotation_rows_sum_to_one_witness:
  "\<exists>R. get_rotation_matrix (Tensor [1, 2] [1 / 2, - 1]) = Inr R \<and> shape R = [1, 2, 9, 9] \<and>
     (\<Sum>q<(9::nat). elem R [0, 0, 3, q]) = 1 \<and> (\<Sum>q<(9::nat). elem R [0, 1, 7, q]) = 1"
proof -
  have w: "well_formed (Tensor [1, 2] [1 / 2, - 1])" by (simp add: well_formed_def)
  have s: "shape (Tensor [1, 2] [1 / 2, - 1]) = [1, 2]" by simp
  from rotation_rows_sum_to_one [OF w s] obtain R where
    R: "get_rotation_matrix (Tensor [1, 2] [1 / 2, - 1]) = Inr R \<and> shape R = [1, 2, 9, 9] \<and>
    (\<forall>s<1. \<forall>i<2. \<forall>p<9.
       (\<Sum>q<(9::nat). elem R [s, i, p, q]) = 1 \<and>
       (\<Sum>q<(9::nat). elem (rot_mat_positive
           (unsqueeze (unsqueeze (tmap cos (flatten (Tensor [1, 2] [1 / 2, - 1]))) 0) 0)
           (unsqueeze (unsqueeze (tmap sin (flatten (Tensor [1, 2] [1 / 2, - 1]))) 0) 0) (1 * 2)) [p, q, s * 2 + i]) = 1 \<and>
       (\<Sum>q<(9::nat). elem (rot_mat_negative
           (unsqueeze (unsqueeze (tmap cos (flatten (Tensor [1, 2] [1 / 2, - 1]))) 0) 0)
           (unsqueeze (unsqueeze (tmap sin (flatten (Tensor [1, 2] [1 / 2, - 1]))) 0) 0) (1 * 2)) [p, q, s * 2 + i]) = 1)"
    by (rule exE)
  from R have rows: "\<And>s i p. s < 1 \<Longrightarrow> i < 2 \<Longrightarrow> p < 9 \<Longrightarrow> (\<Sum>q<(9::nat). elem R [s, i, p, q]) = 1"
    by (elim conjE allE impE) assumption+
  have "(\<Sum>q<(9::nat). elem R [0, 0, 3, q]) = 1" by (rule rows) simp_all
  moreover have "(\<Sum>q<(9::nat). elem R [0, 1, 7, q]) = 1" by (rule rows) simp_all
  ultimately show ?thesis using R by (intro exI [of _ R] conjI) (elim conjE, assumption)+
qed

text \<open>
  Claim C4.  Where the angle of sample \<open>s\<close> and kernel variant \<open>i\<close> is 0, the operator
  returned by \<^verbatim>\<open>_get_rotation_matrix\<close> for this sample and variant is the 9 x 9 identity
  matrix, and so is each of the two templates there: the template for \<open>theta \<ge> 0\<close> and
  the template for \<open>theta < 0\<close> agree at \<open>theta = 0\<close>.
\<close>

theorem rotation_identity_at_zero:
  assumes "well_formed thetas" and "shape thetas = [bs, g]"
    and "s < bs" and "i < g" and "elem thetas [s, i] = 0"
  shows "\<exists>R. get_rotation_matrix thetas = Inr R \<and>
    (\<forall>p<9. \<forall>q<9.
       elem R [s, i, p, q] = (if p = q then 1 else 0) \<and>
       elem (rot_mat_positive
           (unsqueeze (unsqueeze (tmap cos (flatten thetas)) 0) 0)
           (unsqueeze (unsqueeze (tmap sin (flatten thetas)) 0) 0) (bs * g)) [p, q, s * g + i]
         = (if p = q then 1 else 0) \<and>
       elem (rot_mat_negative
           (unsqueeze (unsqueeze (tmap cos (flatten thetas)) 0) 0)
           (unsqueeze (unsqueeze (tmap sin (flatten thetas)) 0) 0) (bs * g)) [p, q, s * g + i]
         = (if p = q then 1 else 0))"
proof -
  note cs = cos_sin_inputs [OF assms(1,2)]
  define R where "R = Tensor [bs, g, 9, 9] (data (permute (rot_mat_blend (flatten thetas)) [2, 0, 1]))"
  have gR: "get_rotation_matrix thetas = Inr R"
    unfolding R_def by (rule get_rotation_matrix_ok [OF assms(1,2)])
  have k: "s * g + i < bs * g" using assms(3,4) by (rule flat_index_lt)
  have z: "data thetas ! (s * g + i) = 0"
    using assms(5) unfolding elem_thetas [OF assms(2)] .
  have lc: "length (map cos (data thetas)) = bs * g" "length (map sin (data thetas)) = bs * g"
    using cs(4) by simp_all
  have c1: "map cos (data thetas) ! (s * g + i) = 1" and s0: "map sin (data thetas) ! (s * g + i) = 0"
    using k cs(4) z by simp_all
  have ident: "elem R [s, i, p, q] = (if p = q then 1 else 0) \<and>
       elem (rot_mat_positive
           (unsqueeze (unsqueeze (tmap cos (flatten thetas)) 0) 0)
           (unsqueeze (unsqueeze (tmap sin (flatten thetas)) 0) 0) (bs * g)) [p, q, s * g + i]
         = (if p = q then 1 else 0) \<and>
       elem (rot_mat_negative
           (unsqueeze (unsqueeze (tmap cos (flatten thetas)) 0) 0)
           (unsqueeze (unsqueeze (tmap sin (flatten thetas)) 0) 0) (bs * g)) [p, q, s * g + i]
         = (if p = q then 1 else 0)"
    if p: "p < 9" and q: "q < 9" for p q
  proof -
    have pos: "elem (rot_mat_positive (Tensor [1, 1, bs * g] (map cos (data thetas)))
        (Tensor [1, 1, bs * g] (map sin (data thetas))) (bs * g)) [p, q, s * g + i]
        = (if p = q then 1 else 0)"
      by (rule rot_mat_positive_zero [OF lc k p q c1 s0])
    have neg: "elem (rot_mat_negative (Tensor [1, 1, bs * g] (map cos (data thetas)))
        (Tensor [1, 1, bs * g] (map sin (data thetas))) (bs * g)) [p, q, s * g + i]
        = (if p = q then 1 else 0)"
      by (rule rot_mat_negative_zero [OF lc k p q c1 s0])
    have "elem R [s, i, p, q]
        = elem (rot_mat_blend (Tensor [bs * g] (data thetas))) [p, q, s * g + i]"
      unfolding R_def by (rule get_rotation_matrix_elem [OF assms(1,2,3,4) p q])
    also have "\<dots> = elem (rot_mat_positive (Tensor [1, 1, bs * g] (map cos (data thetas)))
        (Tensor [1, 1, bs * g] (map sin (data thetas))) (bs * g)) [p, q, s * g + i]"
      unfolding rot_mat_blend_elem [OF cs(4) p q k] z by simp
    finally have "elem R [s, i, p, q] = (if p = q then 1 else 0)" unfolding pos .
    then show ?thesis unfolding cs(1,2) pos neg by simp
  qed
  show ?thesis
    by (rule exI [of _ R]) (intro conjI allI impI gR ident)
qed

theorem rotation_identity_at_zero_witness:
  "\<exists>R. get_rotation_matrix (Tensor [1, 2] [1, 0]) = Inr R \<and>
     elem R [0, 1, 4, 4] = 1 \<and> elem R [0, 1, 2, 5] = 0"
proof -
  have w: "well_formed (Tensor [1, 2] [1, 0])" by (simp add: well_formed_def)
  have s: "shape (Tensor [1, 2] [1, 0]) = [1, 2]" by simp
  have e: "elem (Tensor [1, 2] [1, 0]) [0, 1] = 0" by (simp add: elem_def)
  have b: "(0::nat) < 1" "(1::nat) < 2" by simp_all
  from rotation_identity_at_zero [OF w s b e] obtain R where
    R: "get_rotation_matrix (Tensor [1, 2] [1, 0]) = Inr R"
    and I: "\<And>p q. p < 9 \<Longrightarrow> q < 9 \<Longrightarrow> elem R [0, 1, p, q] = (if p = q then 1 else 0)"
    by (elim exE conjE) (rule that, assumption, simp)
  have "elem R [0, 1, 4, 4] = 1" using I [of 4 4] by simp
  moreover have "elem R [0, 1, 2, 5] = 0" using I [of 2 5] by simp
  ultimately show ?thesis using R by (intro exI [of _ R] conjI)
qed

section \<open>Properties of the weight synthesizer\<close>



text \<open>
  Claim C1, at the default \<^verbatim>\<open>kernel_number = 1\<close> with one sample and one input and output
  channel: \<^verbatim>\<open>batch_rotate_multiweight\<close> does not return a tensor of shape
  \<open>[B * n * Cout, Cin, 3, 3]\<close>; the \<^verbatim>\<open>view(b, 3, 3, 4, Cout, Cin)\<close> of stage 4 raises.
\<close>

theorem batch_rotate_multiweight_one_variant_raises:
  "batch_rotate_multiweight (ones [1, 1, 1, 3, 3]) (ones [1, 1]) (zeros [1, 1]) = Inl RuntimeError"
  by (rule brm_wrong_kernel_number [where b = 1 and n = 1 and Cout = 1 and Cin = 1]) simp_all



section \<open>The layers and the constructor\<close>

lemma shape_drawn [simp]: "shape (drawn rng name shp) = shp"
  by (simp add: drawn_def)

lemma wf_drawn [simp]: "well_formed (drawn rng name shp)"
  by (simp add: drawn_def well_formed_def)

lemma conv2d_ok:
  assumes "shape inp = [N, C, H, W]" and "shape w = [Co, Cg, kh, kw]"
    and "0 < st" and "0 \<le> pd" and "0 < dl" and "0 < gr"
    and "C = Cg * nat gr" and "Co mod nat gr = 0" and "0 < kh" and "0 < kw"
    and "nat dl * (kh - 1) + 1 \<le> H + 2 * nat pd"
    and "nat dl * (kw - 1) + 1 \<le> W + 2 * nat pd"
  obtains out where "conv2d inp w None st pd dl gr = Inr out"
    and "well_formed out"
    and "shape out = [N, Co, (H + 2 * nat pd - nat dl * (kh - 1) - 1) div nat st + 1,
                             (W + 2 * nat pd - nat dl * (kw - 1) - 1) div nat st + 1]"
proof -
  have "\<exists>out. conv2d inp w None st pd dl gr = Inr out \<and> well_formed out \<and>
      shape out = [N, Co, (H + 2 * nat pd - nat dl * (kh - 1) - 1) div nat st + 1,
                          (W + 2 * nat pd - nat dl * (kw - 1) - 1) div nat st + 1]"
    using assms by (simp add: conv2d_def Let_def not_less)
  then show thesis using that by (elim exE conjE)
qed

lemma shape_repeat [simp]:
  "shape (repeat t reps) = map (\<lambda>(r, d). r * d) (zip reps (shape t))"
  by (simp add: repeat_def)

lemma wf_repeat [simp]: "well_formed (repeat t reps)"
  by (simp add: repeat_def)

lemma shape_relu [simp]: "shape (relu t) = shape t"
  by (simp add: relu_def)

lemma wf_relu [simp]: "well_formed (relu t) = well_formed t"
  by (simp add: relu_def)

lemma forward_rotate_fails:
  assumes "rounting_func m = Some rf" and "rf x = Inr (a, g)"
    and "rotate_func m (weight m) a g = Inl e"
  shows "AdaptiveRotatedConv2d_forward m x = Inl e"
  using assms by (simp add: AdaptiveRotatedConv2d_forward_def)

lemma init_ok:
  assumes "groups' \<noteq> 0" and "0 \<le> kernel_number'" and "0 \<le> out_channels'"
    and "0 \<le> in_channels' div groups'" and "0 \<le> kernel_size'"
  shows "AdaptiveRotatedConv2d_init rng in_channels' out_channels' kernel_size' stride' padding'
       dilation' groups' bias' kernel_number' rounting_func' rotate_func' =
     Inr \<lparr> kernel_number = kernel_number',
              in_channels = in_channels',
              out_channels = out_channels',
              kernel_size = kernel_size',
              stride = stride',
              padding = padding',
              dilation = dilation',
              groups = groups',
              bias = bias',
              rounting_func = rounting_func',
              rotate_func = rotate_func',
              weight = drawn rng ''weight'' [nat kernel_number', nat out_channels',
                         nat (in_channels' div groups'), nat kernel_size', nat kernel_size'],
              fc1_conv_weight = drawn rng ''fc1.0.weight''
                         [nat (max (in_channels' div 16) 32), nat out_channels', 1, 1],
              fc1_bn = \<lparr> bn_weight = ones [nat (max (in_channels' div 16) 32)],
                         bn_bias = zeros [nat (max (in_channels' div 16) 32)],
                         running_mean = zeros [nat (max (in_channels' div 16) 32)],
                         running_var = ones [nat (max (in_channels' div 16) 32)],
                         bn_eps = 1 / 100000 \<rparr>,
              fc2_weight = drawn rng ''fc2.weight''
                         [nat (out_channels' * kernel_number'), nat (max (in_channels' div 16) 32), 1, 1],
              softmax_dim = 1,
              training = True \<rparr>"
proof -
  have m: "0 \<le> out_channels' * kernel_number'" using assms(2,3) by simp
  have d: "\<not> max (in_channels' div 16) 32 < 0" by simp
  show ?thesis
    using assms m d
    by (simp add: AdaptiveRotatedConv2d_init_def new_param_def Let_def not_less del: max_less_iff_conj)
qed

section \<open>Properties of the adaptive rotated convolution\<close>

text \<open>
  Claim C2, Scenario A: \<^verbatim>\<open>kernel_number = 1\<close>, \<open>Cin = Cout = 4\<close>, stride 1, padding 1, an
  input of shape \<open>[2, 4, 5, 5]\<close>, the gating forced to 1 and the angle forced to 0.  For
  every kernel bank and every input of these shapes the module is constructed, and its
  forward pass raises: it does not return the output of a plain convolution.
\<close>

theorem scenario_A_forward_raises:
  "\<exists>m. AdaptiveRotatedConv2d_init rng 4 4 3 1 1 1 1 False 1
          (Some (\<lambda>x. Inr (ones [2, 1], zeros [2, 1]))) batch_rotate_multiweight = Inr m \<and>
       shape (weight m) = [1, 4, 4, 3, 3] \<and>
       AdaptiveRotatedConv2d_forward m (tabulate [2, 4, 5, 5] f) = Inl RuntimeError"
proof -
  define rf :: "tensor \<Rightarrow> error + tensor \<times> tensor" where "rf = (\<lambda>x. Inr (ones [2, 1], zeros [2, 1]))"
  define m where "m = \<lparr> kernel_number = 1, in_channels = 4, out_channels = 4, kernel_size = 3,
      stride = 1, padding = 1, dilation = 1, groups = 1, bias = False,
      rounting_func = Some rf, rotate_func = batch_rotate_multiweight,
      weight = drawn rng ''weight'' [1, 4, 4, 3, 3],
      fc1_conv_weight = drawn rng ''fc1.0.weight'' [32, 4, 1, 1],
      fc1_bn = \<lparr> bn_weight = ones [32], bn_bias = zeros [32], running_mean = zeros [32],
                 running_var = ones [32], bn_eps = 1 / 100000 \<rparr>,
      fc2_weight = drawn rng ''fc2.weight'' [4, 32, 1, 1],
      softmax_dim = 1, training = True \<rparr>"
  have i: "AdaptiveRotatedConv2d_init rng 4 4 3 1 1 1 1 False 1 (Some rf) batch_rotate_multiweight = Inr m"
    unfolding m_def by (subst init_ok) simp_all
  have w: "shape (weight m) = [1, 4, 4, 3, 3]" by (simp add: m_def)
  have "batch_rotate_multiweight (weight m) (ones [2, 1]) (zeros [2, 1]) = Inl RuntimeError"
    by (rule brm_wrong_kernel_number [where b = 2 and n = 1 and Cout = 4 and Cin = 4])
      (simp_all add: m_def)
  then have "rotate_func m (weight m) (ones [2, 1]) (zeros [2, 1]) = Inl RuntimeError"
    by (simp add: m_def)
  then have "AdaptiveRotatedConv2d_forward m (tabulate [2, 4, 5, 5] f) = Inl RuntimeError"
    by (rule forward_rotate_fails [rotated 2]) (simp_all add: m_def rf_def)
  with i w show ?thesis unfolding rf_def by (intro exI [of _ m] conjI)
qed

text \<open>
  Claim C5, at \<open>in_channels = 2\<close>, \<open>out_channels = 1\<close>, \<^verbatim>\<open>kernel_number = 4\<close>, stride 1,
  padding 1, dilation 1 and an input of shape \<open>[1, 2, 3, 3]\<close>: the module is constructed,
  the weights are synthesized and the grouped convolution returns, but the forward pass
  raises where it reshapes the result with \<open>Cin\<close> in the place of the output channels; it
  returns no tensor of shape \<open>[1, 1, 3, 3]\<close>.
\<close>

theorem forward_channel_mismatch_raises:
  "\<exists>m. AdaptiveRotatedConv2d_init rng 2 1 3 1 1 1 1 False 4
          (Some (\<lambda>x. Inr (ones [1, 4], zeros [1, 4]))) batch_rotate_multiweight = Inr m \<and>
       AdaptiveRotatedConv2d_forward m (tabulate [1, 2, 3, 3] f) = Inl RuntimeError"
proof -
  define rf :: "tensor \<Rightarrow> error + tensor \<times> tensor" where "rf = (\<lambda>x. Inr (ones [1, 4], zeros [1, 4]))"
  define m where "m = \<lparr> kernel_number = 4, in_channels = 2, out_channels = 1, kernel_size = 3,
      stride = 1, padding = 1, dilation = 1, groups = 1, bias = False,
      rounting_func = Some rf, rotate_func = batch_rotate_multiweight,
      weight = drawn rng ''weight'' [4, 1, 2, 3, 3],
      fc1_conv_weight = drawn rng ''fc1.0.weight'' [32, 1, 1, 1],
      fc1_bn = \<lparr> bn_weight = ones [32], bn_bias = zeros [32], running_mean = zeros [32],
                 running_var = ones [32], bn_eps = 1 / 100000 \<rparr>,
      fc2_weight = drawn rng ''fc2.weight'' [4, 32, 1, 1],
      softmax_dim = 1, training = True \<rparr>"
  have i: "AdaptiveRotatedConv2d_init rng 2 1 3 1 1 1 1 False 4 (Some rf) batch_rotate_multiweight = Inr m"
    unfolding m_def by (subst init_ok) simp_all
  define x where "x = tabulate [1, 2, 3, 3] f"
  have sx: "shape x = [1, 2, 3, 3]" by (simp add: x_def)
  have fw: "AdaptiveRotatedConv2d_forward m x = Inl RuntimeError"
  proof (rule brm_four [of "weight m" "ones [1, 4]" "zeros [1, 4]" 1 1 2])
    show "well_formed (weight m)" "well_formed (ones [1, 4])" "well_formed (zeros [1, 4])"
      "shape (zeros [1, 4]) = [1, 4]" "shape (ones [1, 4]) = [1, 4]"
      "shape (weight m) = [4, 1, 2, 3, 3]"
      by (simp_all add: m_def)
  next
    fix rw
    assume rw: "batch_rotate_multiweight (weight m) (ones [1, 4]) (zeros [1, 4]) = Inr rw"
      and srw: "shape rw = [1 * 4 * 1, 2, 3, 3]"
    define xr where "xr = Tensor [1, 8, 3, 3] (data (repeat x [1, 4, 1, 1]))"
    have r1: "reshape (repeat x [1, 4, 1, 1]) [1, 1 * 4 * 2, 3, 3] = Inr xr"
      by (simp add: reshape_def numel_def sx xr_def)
    have sxr: "shape xr = [1, 8, 3, 3]" by (simp add: xr_def)
    have srw': "shape rw = [4, 2, 3, 3]" using srw by simp
    have "\<exists>out. conv2d xr rw None 1 1 1 4 = Inr out \<and> shape out = [1, 4, 3, 3]"
      by (rule conv2d_ok [OF sxr srw', of 1 1 1 4]) simp_all
    then obtain out where c: "conv2d xr rw None 1 1 1 4 = Inr out"
      and so: "shape out = [1, 4, 3, 3]"
      by (elim exE conjE)
    have r2: "reshape out ([1, 4, 2] @ drop (length (shape out) - 2) (shape out)) = Inl RuntimeError"
      by (simp add: reshape_def numel_def so)
    show ?thesis
      unfolding AdaptiveRotatedConv2d_forward_def
      using rw r1 c r2 by (simp add: m_def rf_def sx Let_def)
  qed
  with i show ?thesis unfolding rf_def x_def by (intro exI [of _ m] conjI)
qed

text \<open>
  Claim C10.  The forward pass does not read the field \<open>bias\<close>: changing it leaves the
  result of every call unchanged, and a module constructed with \<^verbatim>\<open>bias=True\<close> computes,
  from the same initial values, what the module constructed with \<^verbatim>\<open>bias=False\<close> computes.
\<close>

theorem forward_independent_of_bias:
  "AdaptiveRotatedConv2d_forward (m\<lparr>bias := b\<rparr>) x = AdaptiveRotatedConv2d_forward m x \<and>
   ebind (AdaptiveRotatedConv2d_init rng cin cout k s p d g True n rf rot)
         (\<lambda>m. AdaptiveRotatedConv2d_forward m x)
     = ebind (AdaptiveRotatedConv2d_init rng cin cout k s p d g False n rf rot)
         (\<lambda>m. AdaptiveRotatedConv2d_forward m x)"
proof
  show fb: "AdaptiveRotatedConv2d_forward (m\<lparr>bias := b\<rparr>) x = AdaptiveRotatedConv2d_forward m x"
    for m b
    by (simp add: AdaptiveRotatedConv2d_forward_def
        cong: option.case_cong list.case_cong if_cong)
  have "AdaptiveRotatedConv2d_init rng cin cout k s p d g True n rf rot
      = map_sum id (\<lambda>m. m\<lparr>bias := True\<rparr>)
          (AdaptiveRotatedConv2d_init rng cin cout k s p d g False n rf rot)"
    by (simp add: AdaptiveRotatedConv2d_init_def ebind_def Let_def split: sum.splits)
  then show "ebind (AdaptiveRotatedConv2d_init rng cin cout k s p d g True n rf rot)
         (\<lambda>m. AdaptiveRotatedConv2d_forward m x)
     = ebind (AdaptiveRotatedConv2d_init rng cin cout k s p d g False n rf rot)
         (\<lambda>m. AdaptiveRotatedConv2d_forward m x)"
    by (cases "AdaptiveRotatedConv2d_init rng cin cout k s p d g False n rf rot")
       (simp_all add: fb)
qed

text \<open>
  Claim C8, as the code has it.  In a constructed module the first 1 x 1 convolution of
  the channel-attention submodule maps \<open>out_channels\<close> channels to
  \<open>d = max (in_channels div 16) 32\<close> channels, with \<open>d\<close> computed from \<open>in_channels\<close>; the
  normalisation has \<open>d\<close> features; the second 1 x 1 convolution maps \<open>d\<close> channels to
  \<open>out_channels * kernel_number\<close>; the softmax is over axis 1.
\<close>

theorem attention_submodule_shapes:
  assumes "AdaptiveRotatedConv2d_init rng cin cout k s p d g b n rf rot = Inr m"
  shows "shape (fc1_conv_weight m) = [nat (max (cin div 16) 32), nat cout, 1, 1] \<and>
         shape (bn_weight (fc1_bn m)) = [nat (max (cin div 16) 32)] \<and>
         shape (fc2_weight m) = [nat (cout * n), nat (max (cin div 16) 32), 1, 1] \<and>
         softmax_dim m = 1"
  using assms
  by (auto simp: AdaptiveRotatedConv2d_init_def new_param_def ebind_def Let_def
      split: if_splits sum.splits)

theorem attention_submodule_shapes_witness:
  "\<exists>m. AdaptiveRotatedConv2d_init zero_init 1024 64 3 1 1 1 1 False 1 None
          batch_rotate_multiweight = Inr m \<and>
       shape (fc1_conv_weight m) = [64, 64, 1, 1] \<and> shape (fc2_weight m) = [64, 64, 1, 1]"
proof -
  have "\<exists>m. AdaptiveRotatedConv2d_init zero_init 1024 64 3 1 1 1 1 False 1 None
          batch_rotate_multiweight = Inr m"
    by (subst init_ok) simp_all
  then obtain m where m: "AdaptiveRotatedConv2d_init zero_init 1024 64 3 1 1 1 1 False 1 None
          batch_rotate_multiweight = Inr m" by (rule exE)
  from attention_submodule_shapes [OF m]
  have "shape (fc1_conv_weight m) = [64, 64, 1, 1]" "shape (fc2_weight m) = [64, 64, 1, 1]"
    by simp_all
  with m show ?thesis by (intro exI [of _ m] conjI)
qed

text \<open>The claim as stated, with \<open>d\<close> computed from \<open>out_channels\<close>, fails for
  \<open>in_channels = 1024\<close> and \<open>out_channels = 64\<close>: the claim gives \<open>d = 32\<close>, the module
  has 64.\<close>

theorem attention_width_counterexample:
  "ebind (AdaptiveRotatedConv2d_init zero_init 1024 64 3 1 1 1 1 False 1 None batch_rotate_multiweight)
         (Inr \<circ> shape \<circ> fc1_conv_weight) = Inr [64, 64, 1, 1] \<and>
   nat (max (64 div 16) 32) = 32"
  by (subst init_ok) simp_all

text \<open>
  Claim C9, as the code has it.  The constructor has no check of \<^verbatim>\<open>kernel_number\<close>.  With
  the other arguments valid it raises exactly when \<^verbatim>\<open>kernel_number\<close> is negative, where the
  allocation of the kernel bank fails; for every \<^verbatim>\<open>kernel_number\<close> from 0 on it returns a
  module, whose kernel bank has \<^verbatim>\<open>kernel_number\<close> variants.
\<close>

theorem init_kernel_number:
  assumes "g \<noteq> 0" and "0 \<le> cout" and "0 \<le> cin div g" and "0 \<le> k"
  shows "(n < 0 \<longrightarrow> AdaptiveRotatedConv2d_init rng cin cout k s p d g b n rf rot = Inl RuntimeError) \<and>
         (0 \<le> n \<longrightarrow> (\<exists>m. AdaptiveRotatedConv2d_init rng cin cout k s p d g b n rf rot = Inr m \<and>
              kernel_number m = n \<and>
              shape (weight m) = [nat n, nat cout, nat (cin div g), nat k, nat k]))"
proof (intro conjI impI)
  assume "n < 0"
  then show "AdaptiveRotatedConv2d_init rng cin cout k s p d g b n rf rot = Inl RuntimeError"
    using assms by (simp add: AdaptiveRotatedConv2d_init_def new_param_def)
next
  assume n: "0 \<le> n"
  show "\<exists>m. AdaptiveRotatedConv2d_init rng cin cout k s p d g b n rf rot = Inr m \<and>
              kernel_number m = n \<and>
              shape (weight m) = [nat n, nat cout, nat (cin div g), nat k, nat k]"
    by (subst init_ok [OF assms(1) n assms(2,3,4)]) simp
qed

theorem init_kernel_number_witness:
  "\<exists>m. AdaptiveRotatedConv2d_init zero_init 4 4 3 1 1 1 1 False 0 None batch_rotate_multiweight = Inr m \<and>
       kernel_number m = 0 \<and> shape (weight m) = [0, 4, 4, 3, 3]"
  using init_kernel_number [of 1 4 4 3 0 zero_init 1 1 1 False None batch_rotate_multiweight]
  by simp

text \<open>The claim as stated fails at \<^verbatim>\<open>kernel_number = 0\<close>: the constructor returns a module,
  with an empty kernel bank.\<close>

theorem init_zero_variants_counterexample:
  "ebind (AdaptiveRotatedConv2d_init zero_init 4 4 3 1 1 1 1 False 0 None batch_rotate_multiweight)
         (Inr \<circ> shape \<circ> weight) = Inr [0, 4, 4, 3, 3]"
  by (subst init_ok) simp_all

end
